theory Spec2Isabelle
  imports Complex_Main "HOL-Library.Word"
begin

unbundle bit_operations_syntax

section \<open>Vec.h: automatically resizable arrays\<close>

subsection \<open>The data model\<close>

text \<open>
  \<^verbatim>\<open>template<class T, class _Size = int> class vec { T* data; Size sz; Size cap; ... }\<close>

  \<open>Size\<close> is the default \<open>int\<close>: a 32-bit two's complement integer. Arithmetic on it
  wraps; comparisons are the signed ones (\<open><s\<close>, \<open>\<le>s\<close>) and \<open>sint\<close> reads the value.
  \<open>data\<close> is either \<open>NULL\<close> (\<open>None\<close>) or the heap block it points to, as the list of its
  slots. Slots at positions from \<open>sz\<close> on hold no live element; whatever value the model
  keeps there is never read by the operations. The live elements of a vec are
  \<open>contents\<close>.
\<close>

type_synonym Size = "32 word"

record 'a vec =
  data :: "'a list option"
  sz :: Size
  cap :: Size

definition INT_MAX :: int where
  "INT_MAX = 2147483647"

definition contents :: "'a vec \<Rightarrow> 'a list" where
  "contents v = (case data v of None \<Rightarrow> [] | Some b \<Rightarrow> take (nat (sint (sz v))) b)"

text \<open>
  How a call ends. \<open>Returns\<close> is the normal return; \<open>Throws\<close> is the
  \<open>OutOfMemoryException\<close> (of \<open>XAlloc.h\<close>) leaving the call, with the object as the
  throw leaves it;
  \<open>Assertion_failed\<close> is a failed \<open>assert\<close>, which aborts the process in a build without
  \<open>NDEBUG\<close>; \<open>Undefined\<close> is a read or write through \<open>data\<close> outside the heap block (or
  through \<open>NULL\<close>).
\<close>

datatype 'r outcome = Returns 'r | Throws 'r | Assertion_failed | Undefined

text \<open>
  \<open>assert(c)\<close> of \<^verbatim>\<open><assert.h>\<close>: nothing when \<open>NDEBUG\<close> is defined, a check otherwise. The
  flag \<open>ndebug\<close> is the first argument of every operation that asserts.
\<close>

definition assert_fails :: "bool \<Rightarrow> bool \<Rightarrow> bool" where
  "assert_fails ndebug c = (\<not> ndebug \<and> \<not> c)"

text \<open>\<^verbatim>\<open>static inline Size max(Size x, Size y){ return (x > y) ? x : y; }\<close>\<close>

definition vec_max :: "Size \<Rightarrow> Size \<Rightarrow> Size" where
  "vec_max x y = (if y <s x then x else y)"

text \<open>\<^verbatim>\<open>vec() : data(NULL), sz(0), cap(0) { }\<close>\<close>

definition vec0 :: "'a vec" where
  "vec0 = \<lparr>data = None, sz = 0, cap = 0\<rparr>"

subsection \<open>Shrinking: \<open>shrink\<close>, \<open>shrink_\<close> and \<open>pop\<close>\<close>

text \<open>
  Destructor calls are the observable effect of \<open>shrink\<close> and \<open>pop\<close>: each operation
  returns, with the new object, the indices \<open>i\<close> of the calls \<open>data[i].~T()\<close> it made, in
  order.

  \<^verbatim>\<open>
  void shrink(Size nelems) {
      assert(nelems <= sz);
      for (Size i = 0; i < nelems; i++) sz--, data[sz].~T();
  }\<close>
\<close>

lemma sint_succ_Size: "sint (i :: Size) < sint (n :: Size) \<Longrightarrow> sint (i + 1) = sint i + 1"
proof -
  assume a: "sint i < sint n"
  have "sint n < 2147483648" "- 2147483648 \<le> sint i"
    using sint_lt [of n] sint_ge [of i] by simp_all
  with a have "signed_take_bit 31 (sint i + 1) = sint i + 1"
    by (intro signed_take_bit_int_eq_self) simp_all
  then show ?thesis
    by (simp add: sint_word_add)
qed

function shrink_loop :: "Size \<Rightarrow> Size \<Rightarrow> 'a vec \<times> Size list \<Rightarrow> 'a vec \<times> Size list" where
  "shrink_loop nelems i (v, tr) =
     (if i <s nelems
      then shrink_loop nelems (i + 1) (v\<lparr>sz := sz v - 1\<rparr>, tr @ [sz v - 1])
      else (v, tr))"
  by pat_completeness auto
termination
  by (relation "measure (\<lambda>(nelems, i, s). nat (sint nelems - sint i))")
     (auto simp: word_sless_alt sint_succ_Size)

definition shrink :: "bool \<Rightarrow> 'a vec \<Rightarrow> Size \<Rightarrow> ('a vec \<times> Size list) outcome" where
  "shrink ndebug v nelems =
     (if assert_fails ndebug (nelems \<le>s sz v) then Assertion_failed
      else Returns (shrink_loop nelems 0 (v, [])))"

text \<open>
  \<^verbatim>\<open>
  void shrink_(Size nelems) { assert(nelems <= sz); sz -= nelems; }\<close>
\<close>

definition shrink' :: "bool \<Rightarrow> 'a vec \<Rightarrow> Size \<Rightarrow> 'a vec outcome" where
  "shrink' ndebug v nelems =
     (if assert_fails ndebug (nelems \<le>s sz v) then Assertion_failed
      else Returns (v\<lparr>sz := sz v - nelems\<rparr>))"

text \<open>
  \<^verbatim>\<open>
  void pop(void) {
    assert(sz > 0);
    data[sz--].~T();
  }\<close>
  The postfix decrement yields the old value of \<open>sz\<close>: the slot whose destructor runs is
  \<open>data[sz]\<close> with \<open>sz\<close> as it was on entry, and \<open>sz\<close> is one less afterwards.
\<close>

definition pop :: "bool \<Rightarrow> 'a vec \<Rightarrow> ('a vec \<times> Size list) outcome" where
  "pop ndebug v =
     (if assert_fails ndebug (0 <s sz v) then Assertion_failed
      else Returns (v\<lparr>sz := sz v - 1\<rparr>, [sz v]))"


subsection \<open>Growing: \<open>capacity\<close>\<close>

text \<open>
  \<open>realloc\<close> belongs to the C library, and what it answers is not in the hands of the
  vec: either a block of the size asked for, which holds the old block's slots as far as
  both reach and anything (\<open>fresh\<close>) in the slots beyond, or \<open>NULL\<close>. The answer
  \<open>'a realloc_result\<close> and the value that \<open>errno\<close> has after the call are arguments of every
  operation that may allocate. \<open>ENOMEM\<close> has its Linux value.
\<close>

datatype 'a realloc_result = Realloc_block "nat \<Rightarrow> 'a" | Realloc_NULL

definition realloc :: "'a realloc_result \<Rightarrow> 'a list option \<Rightarrow> nat \<Rightarrow> 'a list option" where
  "realloc r p n =
     (case r of
        Realloc_NULL \<Rightarrow> None
      | Realloc_block fresh \<Rightarrow>
          Some (map (\<lambda>i. case p of None \<Rightarrow> fresh i
                            | Some b \<Rightarrow> if i < length b then b ! i else fresh i) [0..<n]))"

definition ENOMEM :: int where
  "ENOMEM = 12"

text \<open>
  \<^verbatim>\<open>
  template<class T, class _Size>
  void vec<T,_Size>::capacity(Size min_cap) {
      if (cap >= min_cap) return;
      Size add = max((min_cap - cap + 1) & ~1, ((cap >> 1) + 2) & ~1);   // NOTE: grow by approximately 3/2
      const Size size_max = std::numeric_limits<Size>::max();
      if ( ((size_max <= std::numeric_limits<int>::max()) && (add > size_max - cap))
      ||   (((data = (T*)::realloc(data, (cap += add) * sizeof(T))) == NULL) && errno == ENOMEM) )
          throw OutOfMemoryException();
   }\<close>
  \<open>capacity_add\<close> is the initialiser of \<open>add\<close>. The arithmetic is that of \<open>int\<close> on a two's
  complement machine: \<open>+\<close> and \<open>-\<close> wrap, \<open>>>\<close> is the arithmetic shift, \<open>~1\<close> is \<open>NOT 1\<close>.
  The number of slots asked of \<open>realloc\<close> is the new \<open>cap\<close>, read without sign as the
  conversion to \<open>size_t\<close> does. When \<open>realloc\<close> has failed, \<open>cap\<close> has been increased and
  \<open>data\<close> overwritten with \<open>NULL\<close> all the same, whether the exception is thrown or not.
\<close>

definition size_max :: Size where
  "size_max = 2147483647"

definition capacity_add :: "Size \<Rightarrow> Size \<Rightarrow> Size" where
  "capacity_add c min_cap =
     vec_max ((min_cap - c + 1) AND NOT 1) ((signed_drop_bit 1 c + 2) AND NOT 1)"

definition capacity :: "'a realloc_result \<Rightarrow> int \<Rightarrow> 'a vec \<Rightarrow> Size \<Rightarrow> 'a vec outcome" where
  "capacity r errno v min_cap =
     (if min_cap \<le>s cap v then Returns v
      else
        let add = capacity_add (cap v) min_cap in
        if sint size_max \<le> INT_MAX \<and> size_max - cap v <s add then Throws v
        else
          let v' = v\<lparr>data := realloc r (data v) (unat (cap v + add)), cap := cap v + add\<rparr> in
          if data v' = None \<and> errno = ENOMEM then Throws v' else Returns v')"

text \<open>
  The regular states of a vec: the size is between \<open>0\<close> and the capacity, and \<open>data\<close> is
  \<open>NULL\<close> with capacity \<open>0\<close> or points to a block of \<open>cap\<close> slots.
\<close>

definition well_formed :: "'a vec \<Rightarrow> bool" where
  "well_formed v = (0 \<le>s sz v \<and> sz v \<le>s cap v \<and>
           (case data v of None \<Rightarrow> cap v = 0 | Some b \<Rightarrow> length b = unat (cap v)))"

subsection \<open>Element access\<close>

text \<open>
  \<^verbatim>\<open>T& operator [] (Size index) { return data[index]; }\<close>

  Neither \<open>operator []\<close> nor the member functions check the index. A read or a write
  outside the heap block, or through \<open>NULL\<close>, is \<open>None\<close> here and ends the calling
  operation as \<open>Undefined\<close>.
\<close>

definition load :: "'a vec \<Rightarrow> Size \<Rightarrow> 'a option" where
  "load v i =
     (case data v of
        None \<Rightarrow> None
      | Some b \<Rightarrow> if 0 \<le> sint i \<and> nat (sint i) < length b then Some (b ! nat (sint i)) else None)"

definition store :: "'a vec \<Rightarrow> Size \<Rightarrow> 'a \<Rightarrow> 'a vec option" where
  "store v i x =
     (case data v of
        None \<Rightarrow> None
      | Some b \<Rightarrow> if 0 \<le> sint i \<and> nat (sint i) < length b
                  then Some (v\<lparr>data := Some (b[nat (sint i) := x])\<rparr>) else None)"

lemma store_fields: "store v i x = Some v' \<Longrightarrow> sz v' = sz v \<and> cap v' = cap v"
  by (auto simp: store_def split: option.splits if_splits)

subsection \<open>The stack interface: \<open>push\<close> and \<open>push_\<close>\<close>

text \<open>
  \<^verbatim>\<open>
  void push(const T& elem) {
    if (sz == cap) capacity(sz+1);
    new (&data[sz++]) T(elem);
  }\<close>
  \<open>push(void)\<close> is the same with a default-constructed element.

  \<^verbatim>\<open>
  void push_(const T& elem) { assert(sz < cap); data[sz++] = elem; }\<close>
\<close>

definition push :: "'a realloc_result \<Rightarrow> int \<Rightarrow> 'a vec \<Rightarrow> 'a \<Rightarrow> 'a vec outcome" where
  "push r errno v elem =
     (case (if sz v = cap v then capacity r errno v (sz v + 1) else Returns v) of
        Returns v1 \<Rightarrow>
          (case store v1 (sz v1) elem of
             None \<Rightarrow> Undefined
           | Some v2 \<Rightarrow> Returns (v2\<lparr>sz := sz v2 + 1\<rparr>))
      | Throws v1 \<Rightarrow> Throws v1
      | Assertion_failed \<Rightarrow> Assertion_failed
      | Undefined \<Rightarrow> Undefined)"

definition push' :: "bool \<Rightarrow> 'a vec \<Rightarrow> 'a \<Rightarrow> 'a vec outcome" where
  "push' ndebug v elem =
     (if assert_fails ndebug (sz v <s cap v) then Assertion_failed
      else case store v (sz v) elem of
             None \<Rightarrow> Undefined
           | Some v2 \<Rightarrow> Returns (v2\<lparr>sz := sz v2 + 1\<rparr>))"

subsection \<open>\<open>growTo\<close> and \<open>clear\<close>\<close>

text \<open>
  \<^verbatim>\<open>
  void vec<T,_Size>::growTo(Size size, const T& pad) {
      if (sz >= size) return;
      capacity(size);
      for (Size i = sz; i < size; i++) data[i] = pad;
      sz = size;
  }\<close>
  \<open>growTo(Size size)\<close> is the same with default-constructed elements, and the
  constructors \<open>vec(size)\<close> and \<open>vec(size, pad)\<close> are \<open>growTo\<close> on the empty vec.
\<close>

function growTo_loop :: "Size \<Rightarrow> 'a \<Rightarrow> Size \<Rightarrow> 'a vec \<Rightarrow> 'a vec option" where
  "growTo_loop size' pad i v =
     (if i <s size'
      then (case store v i pad of None \<Rightarrow> None | Some v' \<Rightarrow> growTo_loop size' pad (i + 1) v')
      else Some v)"
  by pat_completeness auto
termination
  by (relation "measure (\<lambda>(size', pad, i, v). nat (sint size' - sint i))")
     (auto simp: word_sless_alt sint_succ_Size)

definition growTo :: "'a realloc_result \<Rightarrow> int \<Rightarrow> 'a vec \<Rightarrow> Size \<Rightarrow> 'a \<Rightarrow> 'a vec outcome" where
  "growTo r errno v size' pad =
     (if size' \<le>s sz v then Returns v
      else case capacity r errno v size' of
             Returns v1 \<Rightarrow>
               (case growTo_loop size' pad (sz v1) v1 of
                  None \<Rightarrow> Undefined
                | Some v2 \<Rightarrow> Returns (v2\<lparr>sz := size'\<rparr>))
           | Throws v1 \<Rightarrow> Throws v1
           | Assertion_failed \<Rightarrow> Assertion_failed
           | Undefined \<Rightarrow> Undefined)"

text \<open>
  \<^verbatim>\<open>
  void vec<T,_Size>::clear(bool dealloc) {
      if (data != NULL){
          for (Size i = 0; i < sz; i++) data[i].~T();
          sz = 0;
          if (dealloc) free(data), data = NULL, cap = 0;
      }
  }\<close>
\<close>

function clear_loop :: "Size \<Rightarrow> Size \<Rightarrow> Size list \<Rightarrow> Size list" where
  "clear_loop n i tr = (if i <s n then clear_loop n (i + 1) (tr @ [i]) else tr)"
  by pat_completeness auto
termination
  by (relation "measure (\<lambda>(n, i, tr). nat (sint n - sint i))")
     (auto simp: word_sless_alt sint_succ_Size)

definition clear :: "'a vec \<Rightarrow> bool \<Rightarrow> 'a vec \<times> Size list" where
  "clear v dealloc =
     (if data v \<noteq> None
      then (let tr = clear_loop (sz v) 0 []; v1 = v\<lparr>sz := 0\<rparr>
            in (if dealloc then v1\<lparr>data := None, cap := 0\<rparr> else v1, tr))
      else (v, []))"

subsection \<open>\<open>copyTo\<close> and \<open>moveTo\<close>\<close>

text \<open>
  \<^verbatim>\<open>
  void copyTo(vec<T>& copy) const {
    copy.clear(); copy.growTo(sz); for (Size i = 0; i < sz; i++) copy[i] = data[i]; }
  void moveTo(vec<T>& dest) {
    dest.clear(true); dest.data = data; dest.sz = sz; dest.cap = cap;
    data = NULL; sz = 0; cap = 0; }\<close>
  Both are modelled for two distinct objects, and without the destructor calls of the
  \<open>clear\<close> they begin with. \<open>copyTo\<close> returns the new \<open>copy\<close> (the
  argument \<open>dflt\<close> is the default-constructed element of \<open>growTo(sz)\<close>); \<open>moveTo\<close> returns
  the new source and the new \<open>dest\<close>.
\<close>

function copyTo_loop :: "'a vec \<Rightarrow> Size \<Rightarrow> 'a vec \<Rightarrow> 'a vec option" where
  "copyTo_loop v i c =
     (if i <s sz v
      then (case load v i of
              None \<Rightarrow> None
            | Some x \<Rightarrow> (case store c i x of None \<Rightarrow> None | Some c' \<Rightarrow> copyTo_loop v (i + 1) c'))
      else Some c)"
  by pat_completeness auto
termination
  by (relation "measure (\<lambda>(v, i, c). nat (sint (sz v) - sint i))")
     (auto simp: word_sless_alt sint_succ_Size)

definition copyTo :: "'a realloc_result \<Rightarrow> int \<Rightarrow> 'a \<Rightarrow> 'a vec \<Rightarrow> 'a vec \<Rightarrow> 'a vec outcome" where
  "copyTo r errno dflt v copy =
     (case growTo r errno (fst (clear copy False)) (sz v) dflt of
        Returns c1 \<Rightarrow> (case copyTo_loop v 0 c1 of None \<Rightarrow> Undefined | Some c2 \<Rightarrow> Returns c2)
      | Throws c1 \<Rightarrow> Throws c1
      | Assertion_failed \<Rightarrow> Assertion_failed
      | Undefined \<Rightarrow> Undefined)"

definition moveTo :: "'a vec \<Rightarrow> 'a vec \<Rightarrow> 'a vec \<times> 'a vec" where
  "moveTo v dest =
     (let d1 = fst (clear dest True)
      in (v\<lparr>data := None, sz := 0, cap := 0\<rparr>, d1\<lparr>data := data v, sz := sz v, cap := cap v\<rparr>))"

subsection \<open>\<open>retain\<close>\<close>

text \<open>
  \<^verbatim>\<open>
  // Filter the vector to those elements where `pred` returns a value which when converted
  // to a boolean evaluates to `true`.
  template <class UnaryFn>
  void vec<T, _Size>::retain(UnaryFn &&pred)
  {
      _Size i, j;
      for (i = j = 0; i < size(); ++i) {
          T &value = (*this)[i];
          if (pred(value)) {
              (*this)[j++] = value;
          }
      }
      shrink(i - j);
  }\<close>
  The predicate is a function of the element's value, already converted to \<open>bool\<close>.
\<close>

function retain_loop :: "('a \<Rightarrow> bool) \<Rightarrow> Size \<Rightarrow> Size \<Rightarrow> 'a vec \<Rightarrow> (Size \<times> Size \<times> 'a vec) option" where
  "retain_loop pred i j v =
     (if i <s sz v
      then (case load v i of
              None \<Rightarrow> None
            | Some val \<Rightarrow>
                if pred val
                then (case store v j val of
                        None \<Rightarrow> None
                      | Some v' \<Rightarrow> retain_loop pred (i + 1) (j + 1) v')
                else retain_loop pred (i + 1) j v)
      else Some (i, j, v))"
  by pat_completeness auto
termination
  by (relation "measure (\<lambda>(pred, i, j, v). nat (sint (sz v) - sint i))")
     (auto simp: word_sless_alt sint_succ_Size dest: store_fields)

definition retain :: "bool \<Rightarrow> ('a \<Rightarrow> bool) \<Rightarrow> 'a vec \<Rightarrow> ('a vec \<times> Size list) outcome" where
  "retain ndebug pred v =
     (case retain_loop pred 0 0 v of
        None \<Rightarrow> Undefined
      | Some (i, j, v') \<Rightarrow> shrink ndebug v' (i - j))"

subsection \<open>The states a vec can be in\<close>

text \<open>
  The fields of a vec are private: an object changes only through its constructor and
  its member functions (and, for the elements, through the references and the pointer
  they hand out, which is \<open>store\<close>). \<open>reachable\<close> collects the states an object can be in
  after any sequence of calls, in a build with or without \<open>NDEBUG\<close>, whatever \<open>realloc\<close>
  answers, and also after an \<open>OutOfMemoryException\<close> was caught.
\<close>

inductive reachable :: "'a vec \<Rightarrow> bool" where
  r_vec: "reachable vec0"
| r_store: "reachable v \<Longrightarrow> store v i x = Some v' \<Longrightarrow> reachable v'"
| r_shrink: "reachable v \<Longrightarrow> shrink ndebug v n = Returns (v', tr) \<Longrightarrow> reachable v'"
| r_shrink': "reachable v \<Longrightarrow> shrink' ndebug v n = Returns v' \<Longrightarrow> reachable v'"
| r_pop: "reachable v \<Longrightarrow> pop ndebug v = Returns (v', tr) \<Longrightarrow> reachable v'"
| r_capacity: "reachable v \<Longrightarrow> capacity r errno v n = Returns v' \<Longrightarrow> reachable v'"
| r_capacity_throws: "reachable v \<Longrightarrow> capacity r errno v n = Throws v' \<Longrightarrow> reachable v'"
| r_push: "reachable v \<Longrightarrow> push r errno v x = Returns v' \<Longrightarrow> reachable v'"
| r_push_throws: "reachable v \<Longrightarrow> push r errno v x = Throws v' \<Longrightarrow> reachable v'"
| r_push': "reachable v \<Longrightarrow> push' ndebug v x = Returns v' \<Longrightarrow> reachable v'"
| r_growTo: "reachable v \<Longrightarrow> growTo r errno v n x = Returns v' \<Longrightarrow> reachable v'"
| r_growTo_throws: "reachable v \<Longrightarrow> growTo r errno v n x = Throws v' \<Longrightarrow> reachable v'"
| r_clear: "reachable v \<Longrightarrow> clear v dealloc = (v', tr) \<Longrightarrow> reachable v'"
| r_retain: "reachable v \<Longrightarrow> retain ndebug pred v = Returns (v', tr) \<Longrightarrow> reachable v'"
| r_copyTo: "reachable v \<Longrightarrow> reachable c \<Longrightarrow> copyTo r errno x v c = Returns c' \<Longrightarrow> reachable c'"
| r_copyTo_throws: "reachable v \<Longrightarrow> reachable c \<Longrightarrow> copyTo r errno x v c = Throws c' \<Longrightarrow> reachable c'"
| r_moveTo_source: "reachable v \<Longrightarrow> reachable d \<Longrightarrow> moveTo v d = (v', d') \<Longrightarrow> reachable v'"
| r_moveTo_dest: "reachable v \<Longrightarrow> reachable d \<Longrightarrow> moveTo v d = (v', d') \<Longrightarrow> reachable d'"

text \<open>The invariant of the capacity: not negative, and even.\<close>

definition cap_ok :: "'a vec \<Rightarrow> bool" where
  "cap_ok v = (0 \<le> sint (cap v) \<and> even (sint (cap v)))"

subsection \<open>An example object\<close>

text \<open>A vec of four elements in a block of four slots.\<close>

definition v1234 :: "nat vec" where
  "v1234 = \<lparr>data = Some [1, 2, 3, 4], sz = 4, cap = 4\<rparr>"

section \<open>Assert.h and Assert.cc: assertions\<close>

text \<open>
  A process, as far as assertions see it: the program's own state \<open>'s\<close>, and the text
  written to \<open>stderr\<close>. A step either goes on, or ends in \<open>abort()\<close>.
\<close>

datatype 's step = Continues 's string | Aborted string

text \<open>An expression of the program: evaluating it gives a value and may change the state.\<close>

type_synonym ('s, 'v) expr = "'s \<Rightarrow> 'v \<times> 's"

text \<open>Decimal digits of a number, for \<open>%ld\<close>.\<close>

fun digits :: "nat \<Rightarrow> nat \<Rightarrow> string" where
  "digits 0 n = []"
| "digits (Suc fuel) n =
     (if n < 10 then [char_of (48 + n)] else digits fuel (n div 10) @ [char_of (48 + n mod 10)])"

definition show_long :: "int \<Rightarrow> string" where
  "show_long k = (if k < 0 then CHR ''-'' # digits (Suc (nat (- k))) (nat (- k))
                  else digits (Suc (nat k)) (nat k))"

text \<open>
  \<^verbatim>\<open>
  void Minisat::AssertionFailure(const char *assertion, const char *function,
                                 const char *file, long line, const char *fmt, ...)
  {
      fprintf(stderr, "\n~~~ Assertion failed: \"%s\" ~~~\n", assertion);
      if (fmt) {
          va_list ap; va_start(ap, fmt); vfprintf(stderr, fmt, ap); va_end(ap);
          fputc('\n', stderr);
      }
      fprintf(stderr, "in function `%s`, file %s, line %ld\n", function, file, line);
      abort();
  }\<close>
  The argument \<open>msg\<close> is \<open>None\<close> when \<open>fmt\<close> is \<open>nullptr\<close>, and otherwise the text that
  \<open>vfprintf\<close> makes of \<open>fmt\<close> and the variable arguments. \<open>err\<close> is what \<open>stderr\<close> holds on
  entry. The function is \<open>[[noreturn]]\<close>: its only result is \<open>Aborted\<close>.
\<close>

definition AssertionFailure ::
  "string \<Rightarrow> string \<Rightarrow> string \<Rightarrow> int \<Rightarrow> string option \<Rightarrow> string \<Rightarrow> 's step" where
  "AssertionFailure assertion function file line msg err =
     Aborted (err
       @ [CHR ''\<newline>''] @ ''~~~ Assertion failed: '' @ [CHR 0x22] @ assertion @ [CHR 0x22]
       @ '' ~~~'' @ [CHR ''\<newline>'']
       @ (case msg of None \<Rightarrow> [] | Some m \<Rightarrow> m @ [CHR ''\<newline>''])
       @ ''in function '' @ [CHR 0x60] @ function @ [CHR 0x60] @ '', file '' @ file
       @ '', line '' @ show_long line @ [CHR ''\<newline>''])"

text \<open>
  \<^verbatim>\<open>
  #if defined(NDEBUG)
  #    define MINISAT_ASSERT(c, ...) ((void)0)
  #    define MINISAT_ASSERT_TEST(c) (1)
  #else
  #    if !defined(__has_builtin)
  #        if __has_builtin(__builtin_expect)
  #            define MINISAT_ASSERT_TESTX(c) (__builtin_expect(!(c), 0))
  #        endif
  #    endif
  #    if !defined(MINISAT_ASSERT_TEST)
  #        define MINISAT_ASSERT_TEST(c) (!!(c))
  #    endif
  #    define MINISAT_ASSERT(c, ...)                   \
          (MINISAT_ASSERT_TEST(c)                      \
               ? (void)0                               \
               : ::Minisat::AssertionFailure(#c, __func__, __FILE__, __LINE__ __VA_OPT__(, ) __VA_ARGS__))
  #endif\<close>
  Without \<open>NDEBUG\<close> the test is always the fallback \<open>(!!(c))\<close>: the block before it defines
  another macro, \<open>MINISAT_ASSERT_TESTX\<close>, that nothing uses, and only where
  \<open>__has_builtin\<close> is not defined, where the inner \<open>#if\<close> does not preprocess at all.

  \<open>MINISAT_ASSERT ndebug c a f file line msg\<close> is the expansion of
  \<open>MINISAT_ASSERT(c, ...)\<close> in a build with (\<open>ndebug\<close>) or without \<open>NDEBUG\<close>, where \<open>c\<close> is
  the condition as an expression, \<open>a\<close> its source text \<open>#c\<close>, and \<open>f\<close>, \<open>file\<close>, \<open>line\<close> the
  place of the macro call.
\<close>

definition MINISAT_ASSERT_TEST :: "bool \<Rightarrow> bool" where
  "MINISAT_ASSERT_TEST c = (\<not> \<not> c)"

definition MINISAT_ASSERT ::
  "bool \<Rightarrow> ('s, bool) expr \<Rightarrow> string \<Rightarrow> string \<Rightarrow> string \<Rightarrow> int \<Rightarrow> string option
   \<Rightarrow> 's \<Rightarrow> string \<Rightarrow> 's step" where
  "MINISAT_ASSERT ndebug c a f file line msg s err =
     (if ndebug then Continues s err
      else case c s of
             (b, s') \<Rightarrow> if MINISAT_ASSERT_TEST b then Continues s' err
                        else AssertionFailure a f file line msg err)"

text \<open>A condition with a side effect: it counts its evaluations and holds while the count was even.\<close>

definition counted :: "(nat, bool) expr" where
  "counted n = (even n, Suc n)"

section \<open>Options.cc: command-line and environment options\<close>

subsection \<open>Characters and the C library\<close>

text \<open>
  \<open>toupper\<close>, \<open>tolower\<close> and \<open>isspace\<close> of \<^verbatim>\<open><cctype>\<close> in the \<open>"C"\<close> locale, on bytes.
\<close>

definition toupper :: "char \<Rightarrow> char" where
  "toupper c = (if 97 \<le> (of_char c :: nat) \<and> (of_char c :: nat) \<le> 122
                then char_of ((of_char c :: nat) - 32) else c)"

definition tolower :: "char \<Rightarrow> char" where
  "tolower c = (if 65 \<le> (of_char c :: nat) \<and> (of_char c :: nat) \<le> 90
                then char_of ((of_char c :: nat) + 32) else c)"

definition isspace :: "char \<Rightarrow> bool" where
  "isspace c = ((of_char c :: nat) = 32 \<or> 9 \<le> (of_char c :: nat) \<and> (of_char c :: nat) \<le> 13)"

definition isdigit :: "char \<Rightarrow> bool" where
  "isdigit c = (48 \<le> (of_char c :: nat) \<and> (of_char c :: nat) \<le> 57)"

text \<open>
  \<open>strtol(str, &end, 10)\<close> and \<open>strtoll(str, &end, 10)\<close> of the C library: white space,
  an optional sign, then decimal digits. The result is the number read, clamped to the
  range of the result type, with \<open>end\<close> behind the last digit; when no digit follows the
  optional sign, no conversion is performed, the result is \<open>0\<close> and \<open>end\<close> is \<open>str\<close>. \<open>end\<close>
  is never \<open>nullptr\<close>. The model returns the number and the text from \<open>end\<close> on. \<open>long\<close>
  has 64 bits, as on the LP64 platforms.
\<close>

fun strtol_digits :: "string \<Rightarrow> int \<Rightarrow> int \<times> string" where
  "strtol_digits [] acc = (acc, [])"
| "strtol_digits (c # cs) acc =
     (if isdigit c then strtol_digits cs (10 * acc + (int (of_char c) - 48)) else (acc, c # cs))"

definition strtol_clamped :: "int \<Rightarrow> int \<Rightarrow> string \<Rightarrow> int \<times> string" where
  "strtol_clamped lo hi str =
     (let s = dropWhile isspace str;
          neg = (s \<noteq> [] \<and> hd s = CHR ''-'');
          t = (if s \<noteq> [] \<and> (hd s = CHR ''-'' \<or> hd s = CHR ''+'') then tl s else s)
      in if t \<noteq> [] \<and> isdigit (hd t)
         then (case strtol_digits t 0 of
                 (n, rest) \<Rightarrow> (max lo (min hi (if neg then - n else n)), rest))
         else (0, str))"

definition strtol :: "string \<Rightarrow> int \<times> string" where
  "strtol = strtol_clamped (- 9223372036854775808) 9223372036854775807"

definition strtoll :: "string \<Rightarrow> int \<times> string" where
  "strtoll = strtol_clamped (- 9223372036854775808) 9223372036854775807"

text \<open>
  A \<open>double\<close>, as far as the comparisons of \<open>DoubleOption\<close> see it: a finite number, an
  infinity, or not a number. Every comparison with \<open>NaN\<close> is false, except \<open>!=\<close>, which is
  true. \<open>strtod\<close> itself is not modelled: it is an argument of the functions that call
  it, giving the number read and the text from \<open>end\<close> on.
\<close>

datatype double = Finite real | PosInf | NegInf | NaN

fun dle :: "double \<Rightarrow> double \<Rightarrow> bool" where
  "dle NaN b = False"
| "dle a NaN = False"
| "dle NegInf b = True"
| "dle a PosInf = True"
| "dle (Finite x) (Finite y) = (x \<le> y)"
| "dle a b = False"

definition dge :: "double \<Rightarrow> double \<Rightarrow> bool" where
  "dge a b = dle b a"

definition dne :: "double \<Rightarrow> double \<Rightarrow> bool" where
  "dne a b = (a = NaN \<or> b = NaN \<or> a \<noteq> b)"

type_synonym strtod_fn = "string \<Rightarrow> double \<times> string"

subsection \<open>\<open>match\<close>\<close>

text \<open>
  Modelled from the spec: \<open>match\<close> is a function template of
  \<open>minisat/utils/ParseUtils.h\<close>, which is not among the sources, and the specification
  leaves the parsing of the command line to the front end. The model is what its
  callers in \<open>Options.cc\<close> rely on: \<open>match(in, str)\<close> tells whether \<open>str\<close> is a prefix of
  \<open>in\<close>, and moves \<open>in\<close> behind that prefix when it is (\<open>Some\<close> of the rest); otherwise \<open>in\<close>
  stays (\<open>None\<close>).
\<close>

fun match :: "string \<Rightarrow> string \<Rightarrow> string option" where
  "match inp [] = Some inp"
| "match [] (c # str) = None"
| "match (d # inp) (c # str) = (if d = c then match inp str else None)"

subsection \<open>The option classes\<close>

text \<open>
  The ranges \<open>IntRange\<close>, \<open>Int64Range\<close> (\<open>begin\<close>, \<open>end\<close>) and \<open>DoubleRange\<close> (with
  \<open>begin_inclusive\<close> and \<open>end_inclusive\<close>), and the classes \<open>DoubleOption\<close>, \<open>IntOption\<close>,
  \<open>Int64Option\<close>, \<open>StringOption\<close> and \<open>BoolOption\<close>, each with the \<open>name\<close> of its base class
  \<open>Option\<close>, its range and its \<open>value\<close>. The \<open>description\<close>, \<open>category\<close> and \<open>type_name\<close> of
  the base class are only printed by \<open>help\<close>, and are left out.
\<close>

record 'a range =
  range_begin :: 'a
  range_end :: 'a

record DoubleRange = "double range" +
  begin_inclusive :: bool
  end_inclusive :: bool

datatype opt =
    DoubleOption string DoubleRange double
  | IntOption string "32 word range" "32 word"
  | Int64Option string "64 word range" "64 word"
  | StringOption string "string option"
  | BoolOption string bool

fun name :: "opt \<Rightarrow> string" where
  "name (DoubleOption n r v) = n"
| "name (IntOption n r v) = n"
| "name (Int64Option n r v) = n"
| "name (StringOption n v) = n"
| "name (BoolOption n v) = n"

text \<open>
  What a call leaves behind: it returns a result, or it ends the process with
  \<open>exit(code)\<close>; in both cases with the text it wrote to \<open>stderr\<close>.
\<close>

datatype 'a run = Returned 'a string | Exited int string

subsection \<open>\<open>parseValue\<close>\<close>

text \<open>
  The tail of the diagnostics of \<open>DoubleOption\<close>, \<open>IntOption\<close> and \<open>Int64Option\<close>:
  \<^verbatim>\<open>
    if (env_name) fprintf(stderr, " for environment variable %s.\n", env_name);
    else          fprintf(stderr, " for option \"%s\".\n", name);\<close>
\<close>

definition whom :: "string option \<Rightarrow> string \<Rightarrow> string" where
  "whom env_name n =
     (case env_name of
        Some e \<Rightarrow> ''environment variable '' @ e @ ''.'' @ [CHR ''\<newline>'']
      | None \<Rightarrow> ''option '' @ [CHR 0x22] @ n @ [CHR 0x22] @ ''.'' @ [CHR ''\<newline>''])"

definition for_whom :: "string option \<Rightarrow> string \<Rightarrow> string" where
  "for_whom env_name n = '' for '' @ whom env_name n"

text \<open>
  \<^verbatim>\<open>
  bool DoubleOption::parseValue(const char *str, const char *env_name, bool strict)
  {
      char *end;
      double tmp = strtod(str, &end);
      const char *prefix = strict ? "WARN" : "ERROR";
      if (end == nullptr || *end != '\0') {
          fprintf(stderr, "%s! value <%s> is invalid", prefix, str);
      } else if (tmp >= range.end && (!range.end_inclusive || tmp != range.end)) {
          fprintf(stderr, "%s! value <%s> is too large", prefix, str);
      } else if (tmp <= range.begin && (!range.begin_inclusive || tmp != range.begin)) {
          fprintf(stderr, "%s! value <%s> is too small", prefix, str);
      } else {
          value = tmp;
          return true;
      }
      ... for_whom ...
      return false;
  }\<close>
  \<open>IntOption::parseValue\<close> and \<open>Int64Option::parseValue\<close> are the same with
  \<open>int32_t tmp = strtol(str, &end, 10)\<close> and \<open>int64_t tmp = strtoll(str, &end, 10)\<close> and the
  tests \<open>tmp > range.end\<close> and \<open>tmp < range.begin\<close>. Each \<open>parseValue\<close> returns its result, the
  option as it is afterwards, and what it wrote to \<open>stderr\<close>.
\<close>

definition complaint :: "bool \<Rightarrow> string \<Rightarrow> string \<Rightarrow> string" where
  "complaint strict str what =
     (if strict then ''WARN'' else ''ERROR'') @ ''! value <'' @ str @ ''> is '' @ what"

definition DoubleOption_parseValue ::
  "strtod_fn \<Rightarrow> string \<Rightarrow> DoubleRange \<Rightarrow> double \<Rightarrow> string \<Rightarrow> string option \<Rightarrow> bool
   \<Rightarrow> bool \<times> opt \<times> string" where
  "DoubleOption_parseValue strtod n r v str env_name strict =
     (case strtod str of
        (tmp, end_text) \<Rightarrow>
          if end_text \<noteq> []
          then (False, DoubleOption n r v, complaint strict str ''invalid'' @ for_whom env_name n)
          else if dge tmp (range_end r) \<and> (\<not> end_inclusive r \<or> dne tmp (range_end r))
          then (False, DoubleOption n r v, complaint strict str ''too large'' @ for_whom env_name n)
          else if dle tmp (range_begin r) \<and> (\<not> begin_inclusive r \<or> dne tmp (range_begin r))
          then (False, DoubleOption n r v, complaint strict str ''too small'' @ for_whom env_name n)
          else (True, DoubleOption n r tmp, []))"

definition IntOption_parseValue ::
  "string \<Rightarrow> 32 word range \<Rightarrow> 32 word \<Rightarrow> string \<Rightarrow> string option \<Rightarrow> bool
   \<Rightarrow> bool \<times> opt \<times> string" where
  "IntOption_parseValue n r v str env_name strict =
     (case strtol str of
        (k, end_text) \<Rightarrow>
          let tmp = (word_of_int k :: 32 word) in
          if end_text \<noteq> []
          then (False, IntOption n r v, complaint strict str ''invalid'' @ for_whom env_name n)
          else if range_end r <s tmp
          then (False, IntOption n r v, complaint strict str ''too large'' @ for_whom env_name n)
          else if tmp <s range_begin r
          then (False, IntOption n r v, complaint strict str ''too small'' @ for_whom env_name n)
          else (True, IntOption n r tmp, []))"

definition Int64Option_parseValue ::
  "string \<Rightarrow> 64 word range \<Rightarrow> 64 word \<Rightarrow> string \<Rightarrow> string option \<Rightarrow> bool
   \<Rightarrow> bool \<times> opt \<times> string" where
  "Int64Option_parseValue n r v str env_name strict =
     (case strtoll str of
        (k, end_text) \<Rightarrow>
          let tmp = (word_of_int k :: 64 word) in
          if end_text \<noteq> []
          then (False, Int64Option n r v, complaint strict str ''invalid'' @ for_whom env_name n)
          else if range_end r <s tmp
          then (False, Int64Option n r v, complaint strict str ''too large'' @ for_whom env_name n)
          else if tmp <s range_begin r
          then (False, Int64Option n r v, complaint strict str ''too small'' @ for_whom env_name n)
          else (True, Int64Option n r tmp, []))"

text \<open>
  \<^verbatim>\<open>
  bool BoolOption::parseValue(const char *str, const char *env_name, bool strict)
  {
      std::string str_lower;
      for (const char *p = str; *p != '\0'; ++p)
          str_lower.push_back(tolower(*p));
      const char *true_values[] = {"true", "yes", "on", "1"};
      const char *false_values[] = {"false", "no", "off", "0"};
      if (std::find(..true_values.., str_lower) != std::end(true_values)) {
          value = true; return true; }
      if (std::find(..false_values.., str_lower) != std::end(false_values)) {
          value = false; return true; }
      fprintf(stderr, "%s! value <%s> is invalid for ", strict ? "ERROR" : "WARN", str);
      if (env_name) fprintf(stderr, "environment variable %s.\n", env_name);
      else          fprintf(stderr, "option \"%s\".\n", name);
      return false;
  }\<close>
\<close>

definition true_values :: "string list" where
  "true_values = [''true'', ''yes'', ''on'', ''1'']"

definition false_values :: "string list" where
  "false_values = [''false'', ''no'', ''off'', ''0'']"

definition BoolOption_parseValue ::
  "string \<Rightarrow> bool \<Rightarrow> string \<Rightarrow> string option \<Rightarrow> bool \<Rightarrow> bool \<times> opt \<times> string" where
  "BoolOption_parseValue n v str env_name strict =
     (let str_lower = map tolower str in
      if str_lower \<in> set true_values then (True, BoolOption n True, [])
      else if str_lower \<in> set false_values then (True, BoolOption n False, [])
      else (False, BoolOption n v,
            (if strict then ''ERROR'' else ''WARN'') @ ''! value <'' @ str @ ''> is invalid for ''
            @ whom env_name n))"

text \<open>
  \<open>StringOption::parseValue\<close> takes the text as it is: \<open>value = str; return true;\<close>. The
  virtual \<open>parseValue\<close> dispatches on the class of the option.
\<close>

fun parseValue :: "strtod_fn \<Rightarrow> opt \<Rightarrow> string \<Rightarrow> string option \<Rightarrow> bool \<Rightarrow> bool \<times> opt \<times> string" where
  "parseValue strtod (DoubleOption n r v) str env_name strict =
     DoubleOption_parseValue strtod n r v str env_name strict"
| "parseValue strtod (IntOption n r v) str env_name strict =
     IntOption_parseValue n r v str env_name strict"
| "parseValue strtod (Int64Option n r v) str env_name strict =
     Int64Option_parseValue n r v str env_name strict"
| "parseValue strtod (StringOption n v) str env_name strict = (True, StringOption n (Some str), [])"
| "parseValue strtod (BoolOption n v) str env_name strict =
     BoolOption_parseValue n v str env_name strict"

subsection \<open>\<open>parseEnv\<close>\<close>

text \<open>
  \<^verbatim>\<open>
  bool Option::parseEnv()
  {
      std::string env_name{"MINISAT_"};
      for (const char *p = name; *p != '\0'; ++p)
          env_name.push_back(*p == '-' ? '_' : toupper(*p));
      const char *env_value = getenv(env_name.c_str());
      if (env_value && !parseValue(env_value, env_name.c_str(), /*strict=*/false)) {
          fprintf(stderr, "WARN! ignoring environment variable %s=%s", env_name.c_str(), env_value);
          return false;
      } else {
          return env_value;
      }
  }\<close>
  The environment is the function \<open>getenv\<close>, from names to values.
\<close>

definition env_name_of :: "string \<Rightarrow> string" where
  "env_name_of n = ''MINISAT_'' @ map (\<lambda>c. if c = CHR ''-'' then CHR ''_'' else toupper c) n"

definition parseEnv :: "strtod_fn \<Rightarrow> (string \<Rightarrow> string option) \<Rightarrow> opt \<Rightarrow> bool \<times> opt \<times> string" where
  "parseEnv strtod getenv opt =
     (let env_name = env_name_of (name opt) in
      case getenv env_name of
        None \<Rightarrow> (False, opt, [])
      | Some env_value \<Rightarrow>
          (case parseValue strtod opt env_value (Some env_name) False of
             (ok, opt', err) \<Rightarrow>
               if \<not> ok
               then (False, opt',
                     err @ ''WARN! ignoring environment variable '' @ env_name @ ''='' @ env_value)
               else (True, opt', err)))"

subsection \<open>\<open>parse\<close>\<close>


text \<open>
  \<^verbatim>\<open>
  bool BoolOption::parse(const char *str)
  {
      const char *span = str;
      if (!match(span, "-"))
          return false;
      // Option can have the form -no-<NAME> to disable.
      if (match(span, "no-")) {
          if (strcmp(span, name) == 0) { value = false; return true; }
          else { return false; }
      }
      if (!match(span, name))
          return false;
      // Option can have the form -<NAME>=<VALUE> with VALUE one of TRUE, YES, ON, 1 / FALSE, NO, OFF, 0.
      if (match(span, "=")) {
          if (!parseValue(span))
              exit(1);
          return true;
      }
      // Option can have the form -<NAME> to enable.
      if (*span == '\0') { value = true; return true; }
      return false;
  }\<close>
\<close>

definition BoolOption_parse :: "string \<Rightarrow> bool \<Rightarrow> string \<Rightarrow> (bool \<times> opt) run" where
  "BoolOption_parse n v str =
     (case match str ''-'' of
        None \<Rightarrow> Returned (False, BoolOption n v) []
      | Some s1 \<Rightarrow>
          (case match s1 ''no-'' of
             Some s2 \<Rightarrow>
               if s2 = n then Returned (True, BoolOption n False) []
               else Returned (False, BoolOption n v) []
           | None \<Rightarrow>
               (case match s1 n of
                  None \<Rightarrow> Returned (False, BoolOption n v) []
                | Some s2 \<Rightarrow>
                    (case match s2 ''='' of
                       Some span' \<Rightarrow>
                         (case BoolOption_parseValue n v span' None True of
                            (ok, opt', err) \<Rightarrow>
                              if \<not> ok then Exited 1 err else Returned (True, opt') err)
                     | None \<Rightarrow>
                         if s2 = [] then Returned (True, BoolOption n True) []
                         else Returned (False, BoolOption n v) []))))"


subsection \<open>\<open>parseOptions\<close> and \<open>printUsageAndExit\<close>\<close>

text \<open>
  What the front end has set up when it calls \<open>parseOptions\<close>: the \<open>strtod\<close> of the C
  library; the help prefix (\<open>Option::getHelpPrefixString()\<close>); the usage text, as the
  function from \<open>argv[0]\<close> to what \<open>fprintf(stderr, usage, argv[0])\<close> writes, or \<open>None\<close> for
  \<open>usage == NULL\<close>; and the text that the loop of \<open>printUsageAndExit\<close> over the sorted
  option list writes with the \<open>help\<close> member functions (whose \<open>printf\<close> formats are not
  modelled).

  \<^verbatim>\<open>
  void printUsageAndExit (int /*argc*/, char** argv, bool verbose)
  {
      const char* usage = Option::getUsageString();
      if (usage != NULL)
          fprintf(stderr, usage, argv[0]);
      sort(Option::getOptionList(), Option::OptionLt());
      ... for each option: headers and help(verbose) ...
      fprintf(stderr, "\nHELP OPTIONS:\n\n");
      fprintf(stderr, "  --%shelp        Print help message.\n", Option::getHelpPrefixString());
      fprintf(stderr, "  --%shelp-verb   Print verbose help message.\n", Option::getHelpPrefixString());
      fprintf(stderr, "\n");
      exit(0);
  }\<close>
\<close>

record front_end =
  strtod :: strtod_fn
  HelpPrefixString :: string
  UsageString :: "(string \<Rightarrow> string) option"
  help_text :: "bool \<Rightarrow> opt list \<Rightarrow> string"








subsection \<open>Example options\<close>

text \<open>An \<open>IntOption\<close> \<open>verb\<close> with range \<open>[0, 2]\<close> and value \<open>1\<close>, and a \<open>BoolOption\<close> \<open>pre\<close>.\<close>

definition opt_verb :: opt where
  "opt_verb = IntOption ''verb'' \<lparr>range_begin = 0, range_end = 2\<rparr> 1"


text \<open>A front end with no usage text and no help prefix, whose \<open>strtod\<close> reads nothing.\<close>

definition plain_front_end :: front_end where
  "plain_front_end =
     \<lparr>strtod = (\<lambda>str. (Finite 0, str)), HelpPrefixString = [], UsageString = None,
      help_text = (\<lambda>verbose opts. [])\<rparr>"

text \<open>An environment in which only \<open>MINISAT_VERB\<close> is set.\<close>

definition env_verb :: "string \<Rightarrow> string \<Rightarrow> string option" where
  "env_verb val x = (if x = ''MINISAT_VERB'' then Some val else None)"

section \<open>Properties of Vec.h\<close>

declare retain_loop.simps [simp del] growTo_loop.simps [simp del] clear_loop.simps [simp del]
  copyTo_loop.simps [simp del]

lemmas retain_loop_unfold = retain_loop.simps



subsection \<open>Shrinking\<close>

lemma shrink_loop_unfold:
  "shrink_loop nelems i (v, tr) =
     (if i <s nelems
      then shrink_loop nelems (i + 1) (v\<lparr>sz := sz v - 1\<rparr>, tr @ [sz v - 1])
      else (v, tr))"
  by (rule shrink_loop.simps)

declare shrink_loop.simps [simp del]

lemma shrink_one:
  "0 <s sz v \<Longrightarrow> shrink ndebug v 1 = Returns (v\<lparr>sz := sz v - 1\<rparr>, [sz v - 1])"
proof -
  assume a: "0 <s sz v"
  then have le: "1 \<le>s sz v"
    by (simp add: word_sless_alt word_sle_eq)
  have "shrink_loop 1 0 (v, []) = shrink_loop 1 1 (v\<lparr>sz := sz v - 1\<rparr>, [sz v - 1])"
    by (subst shrink_loop_unfold) (simp add: word_sless_alt)
  also have "\<dots> = (v\<lparr>sz := sz v - 1\<rparr>, [sz v - 1])"
    by (subst shrink_loop_unfold) simp
  finally show ?thesis
    using le by (simp add: shrink_def assert_fails_def)
qed

lemma pop_returns:
  "0 <s sz v \<Longrightarrow> pop ndebug v = Returns (v\<lparr>sz := sz v - 1\<rparr>, [sz v])"
  by (simp add: pop_def assert_fails_def)

text \<open>
  Claim C3. For a vec of size \<open>sz > 0\<close>, \<open>pop()\<close> is to decrement the size by one and to run
  the destructor of the removed last element, the one at index \<open>sz - 1\<close>, touching no index
  outside the live range \<open>[0, sz)\<close>. The size is decremented, but the one destructor call
  of \<open>pop\<close> is on index \<open>sz\<close>, the slot after the last element, which is outside the live
  range: on a vec with one element in a block of two slots, \<open>pop\<close> destroys slot \<open>1\<close>
  where \<open>shrink(1)\<close> destroys slot \<open>0\<close>.
\<close>

theorem pop_destroys_slot_after_last:
  "pop False \<lparr>data = Some [7 :: nat, 0], sz = 1, cap = 2\<rparr>
     = Returns (\<lparr>data = Some [7, 0], sz = 0, cap = 2\<rparr>, [1])
   \<and> shrink False \<lparr>data = Some [7 :: nat, 0], sz = 1, cap = 2\<rparr> 1
     = Returns (\<lparr>data = Some [7, 0], sz = 0, cap = 2\<rparr>, [0])"
proof -
  have "(0 :: Size) <s 1"
    by (simp add: word_sless_alt)
  then show ?thesis
    using pop_returns [of "\<lparr>data = Some [7 :: nat, 0], sz = 1, cap = 2\<rparr>" False]
      shrink_one [of "\<lparr>data = Some [7 :: nat, 0], sz = 1, cap = 2\<rparr>" False]
    by simp
qed

subsection \<open>Growing\<close>

lemma and_not1_int: "(x::int) AND NOT 1 = 2 * (x div 2)"
  by (subst and_int_rec) (simp add: not_int_def)

lemma sint_and_not1 [simp]: "sint ((x::Size) AND - 2) = 2 * (sint x div 2)"
proof -
  have "sint (x AND NOT 1) = sint x AND NOT 1"
    by (simp add: signed_and_eq)
  then have "sint (x AND NOT 1) = 2 * (sint x div 2)"
    by (simp only: and_not1_int)
  then show ?thesis
    by simp
qed

lemma sint_range: "- 2147483648 \<le> sint (x::Size)" "sint (x :: Size) \<le> 2147483647"
  using sint_lt [of x] sint_ge [of x] by simp_all

lemma sint_in_range: "- 2147483648 \<le> (k::int) \<Longrightarrow> k \<le> 2147483647 \<Longrightarrow> signed_take_bit 31 k = k"
  by (rule signed_take_bit_int_eq_self) simp_all

lemma sint_half_plus2:
  "0 \<le> sint (c::Size) \<Longrightarrow> sint (signed_drop_bit (Suc 0) c + 2) = sint c div 2 + 2"
proof -
  assume a: "0 \<le> sint c"
  have h: "sint (signed_drop_bit (Suc 0) c) = sint c div 2"
    by (simp add: sint_signed_drop_bit_eq drop_bit_eq_div)
  from a sint_range(2) [of c] have "signed_take_bit 31 (sint c div 2 + 2) = sint c div 2 + 2"
    by (intro sint_in_range) linarith+
  then show ?thesis
    by (simp add: sint_word_add h)
qed

lemma sint_vec_max: "sint (vec_max x y) = max (sint x) (sint y)"
  by (simp add: vec_max_def word_sless_alt max_def)

lemma sint_size_max_minus: "0 \<le> sint (c::Size) \<Longrightarrow> sint (size_max - c) = INT_MAX - sint c"
proof -
  assume a: "0 \<le> sint c"
  have s: "sint size_max = 2147483647" by (simp add: size_max_def)
  from a sint_range(2) [of c] have "signed_take_bit 31 (2147483647 - sint c) = 2147483647 - sint c"
    by (intro sint_in_range) linarith+
  then show ?thesis
    by (simp add: sint_word_diff s INT_MAX_def)
qed

lemma sint_needed:
  assumes "0 \<le> sint (c::Size)" "sint c < sint (m::Size)" "\<not> (sint c = 0 \<and> sint m = INT_MAX)"
  shows "sint (m - c + 1) = sint m - sint c + 1"
proof -
  have d: "sint (m - c) = sint m - sint c"
    using assms sint_range [of m] sint_range [of c]
    by (simp add: sint_word_diff sint_in_range)
  have "signed_take_bit 31 (sint m - sint c + 1) = sint m - sint c + 1"
    using assms sint_range [of m] sint_range [of c]
    by (intro sint_in_range) (auto simp: INT_MAX_def)
  then show ?thesis
    by (simp add: sint_word_add d)
qed

lemma sint_capacity_add:
  assumes "0 \<le> sint (c::Size)" "sint c < sint (m::Size)" "\<not> (sint c = 0 \<and> sint m = INT_MAX)"
  shows "sint (capacity_add c m) = max (2 * ((sint m - sint c + 1) div 2)) (2 * ((sint c div 2 + 2) div 2))"
  using assms by (simp add: capacity_add_def sint_vec_max sint_needed sint_half_plus2)

lemma capacity_add_even_pos:
  assumes "0 \<le> sint (c::Size)"
  shows "even (sint (capacity_add c m))" "2 \<le> sint (capacity_add c m)"
  using assms by (auto simp add: capacity_add_def sint_vec_max sint_half_plus2 max_def)


lemma unat_nonneg: "0 \<le> sint (x::Size) \<Longrightarrow> unat x = nat (sint x)"
proof -
  assume a: "0 \<le> sint x"
  have "sint x < 4294967296"
    using sint_range(2) [of x] by linarith
  with a have "take_bit 32 (sint x) = sint x"
    by (intro take_bit_int_eq_self) simp_all
  then have "uint x = sint x"
    by (simp add: uint_sint)
  then show ?thesis
    by (simp add: unat_eq_nat_uint)
qed

lemma sint_new_cap:
  assumes "0 \<le> sint (c::Size)" "0 \<le> sint (a::Size)" "\<not> INT_MAX - sint c < sint a"
  shows "sint (c + a) = sint c + sint a"
proof -
  have "signed_take_bit 31 (sint c + sint a) = sint c + sint a"
    using assms by (intro sint_in_range) (simp_all add: INT_MAX_def)
  then show ?thesis
    by (simp add: sint_word_add)
qed

lemma sint_size_max_le: "sint size_max \<le> INT_MAX"
  by (simp add: size_max_def INT_MAX_def)

lemma capacity_grow:
  assumes "0 \<le> sint (cap v)" "cap v <s min_cap"
  shows "capacity r errno v min_cap =
     (if INT_MAX - sint (cap v) < sint (capacity_add (cap v) min_cap) then Throws v
      else if r = Realloc_NULL \<and> errno = ENOMEM
      then Throws (v\<lparr>data := None, cap := cap v + capacity_add (cap v) min_cap\<rparr>)
      else Returns (v\<lparr>data := realloc r (data v) (unat (cap v + capacity_add (cap v) min_cap)),
                       cap := cap v + capacity_add (cap v) min_cap\<rparr>))"
proof -
  have n: "\<not> min_cap \<le>s cap v"
    using assms(2) by (simp add: word_sless_alt word_sle_eq)
  have t: "(size_max - cap v <s capacity_add (cap v) min_cap) =
           (INT_MAX - sint (cap v) < sint (capacity_add (cap v) min_cap))"
    using assms(1) by (simp add: word_sless_alt sint_size_max_minus)
  have d: "(realloc r (data v) n = None) = (r = Realloc_NULL)" for n
    by (cases r) (simp_all add: realloc_def)
  show ?thesis
    by (cases r) (simp_all add: capacity_def n t d sint_size_max_le Let_def realloc_def)
qed

lemma capacity_add_needed:
  assumes "0 \<le> sint (c::Size)" "sint c < sint (m::Size)" "\<not> (sint c = 0 \<and> sint m = INT_MAX)"
  shows "sint m - sint c \<le> sint (capacity_add c m)"
proof -
  have "sint m - sint c \<le> 2 * ((sint m - sint c + 1) div 2)"
    by presburger
  then show ?thesis
    using assms by (simp add: sint_capacity_add)
qed

text \<open>
  Growing a full vec by one element, as \<open>push\<close> does: the increase is half the capacity
  plus one or two, so the new capacity is one and a half times the old one, plus one or
  two.
\<close>

lemma capacity_add_push:
  assumes "0 \<le> sint (c::Size)" "even (sint c)"
  shows "sint (capacity_add c (c + 1)) = 2 * ((sint c div 2 + 2) div 2)"
    and "3 * sint c + 2 \<le> 2 * (sint c + sint (capacity_add c (c + 1)))"
    and "2 * (sint c + sint (capacity_add c (c + 1))) \<le> 3 * sint c + 4"
proof -
  have "odd INT_MAX"
    by (simp add: INT_MAX_def)
  with assms(2) have "sint c \<noteq> INT_MAX"
    by auto
  then have lt: "sint c < sint size_max"
    using sint_range(2) [of c] by (simp add: size_max_def INT_MAX_def)
  then have s: "sint (c + 1) = sint c + 1"
    by (rule sint_succ_Size)
  have "sint (capacity_add c (c + 1))
      = max (2 * ((sint (c + 1) - sint c + 1) div 2)) (2 * ((sint c div 2 + 2) div 2))"
    using assms(1) s lt by (intro sint_capacity_add) (simp_all add: size_max_def INT_MAX_def)
  then show e: "sint (capacity_add c (c + 1)) = 2 * ((sint c div 2 + 2) div 2)"
    using assms(1) by (simp add: s)
  show "3 * sint c + 2 \<le> 2 * (sint c + sint (capacity_add c (c + 1)))"
    using assms unfolding e by presburger
  show "2 * (sint c + sint (capacity_add c (c + 1))) \<le> 3 * sint c + 4"
    using assms unfolding e by presburger
qed

lemma realloc_keeps_prefix:
  assumes "n \<le> length b" "length b \<le> N"
  shows "take n (map (\<lambda>i. if i < length b then b ! i else fresh i) [0..<N]) = take n b"
  using assms by (intro nth_equalityI) simp_all

lemma capacity_contents:
  assumes "well_formed v" "0 \<le> sint (a::Size)" "\<not> INT_MAX - sint (cap v) < sint a"
  shows "contents (v\<lparr>data := realloc (Realloc_block fresh) (data v) (unat (cap v + a)), cap := cap v + a\<rparr>)
         = contents v"
proof (cases "data v")
  case None
  with assms(1) have "sint (sz v) = 0"
    by (auto simp: well_formed_def word_sle_eq)
  with None show ?thesis
    by (simp add: contents_def realloc_def)
next
  case (Some b)
  from assms(1) have c0: "0 \<le> sint (cap v)" and s0: "0 \<le> sint (sz v)" and sc: "sint (sz v) \<le> sint (cap v)"
    by (auto simp: well_formed_def word_sle_eq)
  from assms(1) Some have lb: "length b = nat (sint (cap v))"
    by (simp add: well_formed_def unat_nonneg [OF c0])
  have sn: "sint (cap v + a) = sint (cap v) + sint a"
    using c0 assms(2,3) by (rule sint_new_cap)
  have un: "unat (cap v + a) = nat (sint (cap v) + sint a)"
    using c0 assms(2) by (simp add: unat_nonneg sn)
  have "take (nat (sint (sz v))) (map (\<lambda>i. if i < length b then b ! i else fresh i) [0..<unat (cap v + a)])
        = take (nat (sint (sz v))) b"
    using lb sc s0 c0 assms(2) un by (intro realloc_keeps_prefix) simp_all
  with Some show ?thesis
    by (simp add: contents_def realloc_def)
qed


text \<open>
  What \<open>capacity(min_cap)\<close> does on a vec in a regular state (\<open>well_formed\<close>) with
  \<open>cap < min_cap\<close>, the one input \<open>cap = 0\<close>, \<open>min_cap = INT_MAX\<close> apart. It throws whenever
  the computed increase exceeds \<open>INT_MAX - cap\<close>, and whenever \<open>realloc\<close> returns \<open>NULL\<close> with
  \<open>errno == ENOMEM\<close>. When it returns after \<open>realloc\<close> gave a block, the new capacity is at
  least \<open>min_cap\<close> and the stored elements are the same.
\<close>

lemma capacity_grows_or_throws:
  assumes "well_formed v" and "cap v <s min_cap" and "\<not> (cap v = 0 \<and> min_cap = size_max)"
  shows "(case capacity r errno v min_cap of
            Returns v' \<Rightarrow>
              (r \<noteq> Realloc_NULL \<and> sint min_cap \<le> sint (cap v') \<and> contents v' = contents v)
              \<or> (r = Realloc_NULL \<and> errno \<noteq> ENOMEM \<and> data v' = None)
          | Throws v' \<Rightarrow>
              INT_MAX - sint (cap v) < sint (capacity_add (cap v) min_cap)
              \<or> (r = Realloc_NULL \<and> errno = ENOMEM)
          | _ \<Rightarrow> False)
       \<and> (INT_MAX - sint (cap v) < sint (capacity_add (cap v) min_cap)
            \<longrightarrow> capacity r errno v min_cap = Throws v)
       \<and> (r = Realloc_NULL \<and> errno = ENOMEM \<longrightarrow> (\<exists>v'. capacity r errno v min_cap = Throws v'))"
proof -
  let ?a = "capacity_add (cap v) min_cap"
  from assms(1) have c0: "0 \<le> sint (cap v)"
    by (auto simp: well_formed_def word_sle_eq)
  have lt: "sint (cap v) < sint min_cap"
    using assms(2) by (simp add: word_sless_alt)
  have ne: "\<not> (sint (cap v) = 0 \<and> sint min_cap = INT_MAX)"
  proof
    assume h: "sint (cap v) = 0 \<and> sint min_cap = INT_MAX"
    then have "sint (cap v) = sint (0 :: Size)" "sint min_cap = sint size_max"
      by (simp_all add: size_max_def INT_MAX_def)
    then have "cap v = 0 \<and> min_cap = size_max"
      by (simp only: signed_word_eqI simp_thms)
    with assms(3) show False by simp
  qed
  have a0: "0 \<le> sint ?a"
    using capacity_add_even_pos(2) [OF c0, of min_cap] by simp
  have need: "sint min_cap - sint (cap v) \<le> sint ?a"
    using c0 lt ne by (rule capacity_add_needed)
  note g = capacity_grow [OF c0 assms(2)]
  show ?thesis
  proof (cases "INT_MAX - sint (cap v) < sint ?a")
    case True
    then show ?thesis by (simp add: g)
  next
    case False
    have sn: "sint (cap v + ?a) = sint (cap v) + sint ?a"
      using c0 a0 False by (rule sint_new_cap)
    show ?thesis
    proof (cases r)
      case Realloc_NULL
      then show ?thesis using False by (simp add: g realloc_def)
    next
      case (Realloc_block fresh)
      have "contents (v\<lparr>data := realloc (Realloc_block fresh) (data v) (unat (cap v + ?a)), cap := cap v + ?a\<rparr>)
            = contents v"
        using assms(1) a0 False by (rule capacity_contents)
      then show ?thesis
        using False Realloc_block need sn by (simp add: g)
    qed
  qed
qed

text \<open>
  With a \<open>realloc\<close> that sets \<open>errno\<close> to \<open>ENOMEM\<close> when it fails, as POSIX requires, that
  is: \<open>capacity\<close> returns with the new capacity at least
  \<open>min_cap\<close> and the elements preserved, or it throws; it throws whenever the increase
  exceeds \<open>INT_MAX - cap\<close>, and whenever the allocation fails.
\<close>

lemma capacity_grows_or_throws_ENOMEM:
  assumes "well_formed v" and "cap v <s min_cap" and "\<not> (cap v = 0 \<and> min_cap = size_max)"
    and "r = Realloc_NULL \<longrightarrow> errno = ENOMEM"
  shows "(case capacity r errno v min_cap of
            Returns v' \<Rightarrow> sint min_cap \<le> sint (cap v') \<and> contents v' = contents v
          | Throws v' \<Rightarrow> True
          | _ \<Rightarrow> False)
       \<and> (INT_MAX - sint (cap v) < sint (capacity_add (cap v) min_cap)
            \<longrightarrow> capacity r errno v min_cap = Throws v)
       \<and> (r = Realloc_NULL \<longrightarrow> (\<exists>v'. capacity r errno v min_cap = Throws v'))"
proof -
  note c = capacity_grows_or_throws [OF assms(1-3), of r errno]
  show ?thesis
  proof (cases "capacity r errno v min_cap")
    case (Returns v')
    with c assms(4) show ?thesis by auto
  next
    case (Throws v')
    with c assms(4) show ?thesis by auto
  next
    case Assertion_failed
    with c show ?thesis by simp
  next
    case Undefined
    with c show ?thesis by simp
  qed
qed

text \<open>
  Claim C1. For a vec with capacity \<open>cap < min_cap\<close>, \<open>capacity(min_cap)\<close> is to return with
  the new capacity at least \<open>min_cap\<close> and the elements preserved, or to throw
  \<open>OutOfMemoryException\<close>. On the empty vec, which is in a regular state, with
  \<open>min_cap = INT_MAX\<close> it does neither: the increase, computed from the overflowing
  \<open>min_cap - cap + 1\<close>, is \<open>2\<close> and does not exceed \<open>INT_MAX - cap\<close>, so nothing is thrown,
  whatever \<open>errno\<close> holds; \<open>realloc\<close> gives a block of two slots, and \<open>capacity\<close> returns
  normally with capacity \<open>2\<close>, below \<open>min_cap\<close>.
\<close>

theorem capacity_returns_below_min_cap:
  "well_formed (vec0 :: bool vec)
   \<and> cap (vec0 :: bool vec) <s 2147483647
   \<and> \<not> INT_MAX - sint (cap (vec0 :: bool vec)) < sint (capacity_add (cap (vec0 :: bool vec)) 2147483647)
   \<and> capacity (Realloc_block (\<lambda>_. False)) ENOMEM vec0 2147483647
       = Returns \<lparr>data = Some [False, False], sz = 0, cap = 2\<rparr>
   \<and> sint (cap \<lparr>data = Some [False, False], sz = 0, cap = 2\<rparr>) < sint (2147483647 :: Size)"
  by (simp add: capacity_def capacity_add_def vec_max_def vec0_def realloc_def size_max_def
        well_formed_def INT_MAX_def ENOMEM_def word_sle_eq word_sless_alt Let_def upt_conv_Cons)

text \<open>
  Claim C2. The increase is computed as
  \<open>max((min_cap - cap + 1) & ~1, ((cap >> 1) + 2) & ~1)\<close>, and the new capacity is to be at
  least \<open>min_cap\<close>. On the empty vec with \<open>min_cap = INT_MAX\<close> (as in \<open>vec<T> v(INT_MAX)\<close>)
  the sum \<open>min_cap - cap + 1\<close> overflows \<open>int\<close>; wrapped, it is \<open>INT_MIN\<close>, the increase is
  \<open>2\<close>, no exception is thrown and \<open>capacity\<close> returns with capacity \<open>2\<close>, which is less
  than \<open>min_cap\<close>.
\<close>

theorem capacity_INT_MAX_on_empty:
  "capacity_add 0 2147483647 = 2
   \<and> capacity (Realloc_block (\<lambda>_. 0 :: nat)) 0 vec0 2147483647
       = Returns \<lparr>data = Some [0, 0], sz = 0, cap = 2\<rparr>
   \<and> \<not> sint (2147483647 :: Size) \<le> sint (cap \<lparr>data = Some [0, 0 :: nat], sz = 0, cap = 2\<rparr>)"
  by (simp add: capacity_def capacity_add_def vec_max_def vec0_def realloc_def size_max_def
        INT_MAX_def ENOMEM_def word_sle_eq word_sless_alt Let_def upt_conv_Cons)

subsection \<open>Filtering\<close>

lemma shrink_loop_fst:
  "sint i \<le> sint n \<Longrightarrow> fst (shrink_loop n i (v, tr)) = v\<lparr>sz := sz v - (n - i)\<rparr>"
proof (induction n i "(v, tr)" arbitrary: v tr rule: shrink_loop.induct)
  case (1 nelems i v tr)
  show ?case
  proof (cases "i <s nelems")
    case True
    then have "sint (i + 1) \<le> sint nelems"
      by (simp add: word_sless_alt sint_succ_Size)
    with True "1.hyps" [OF True]
    have "fst (shrink_loop nelems (i + 1) (v\<lparr>sz := sz v - 1\<rparr>, tr @ [sz v - 1]))
          = v\<lparr>sz := sz v - 1 - (nelems - (i + 1))\<rparr>"
      by simp
    with True show ?thesis
      by (subst shrink_loop_unfold) simp
  next
    case False
    with "1.prems" have "sint i = sint nelems"
      by (simp add: word_sless_alt)
    then have "i = nelems"
      by (rule signed_word_eqI)
    with False show ?thesis
      by (subst shrink_loop_unfold) simp
  qed
qed

lemma retain_loop_inv:
  assumes "data v = Some b" "0 \<le> sint j" "sint j \<le> sint i" "sint i \<le> sint (sz v)"
    "nat (sint (sz v)) \<le> length b"
  shows "\<exists>j' b'. retain_loop p i j v = Some (sz v, j', v\<lparr>data := Some b'\<rparr>)
           \<and> length b' = length b
           \<and> sint j' = sint j + int (length (filter p (drop (nat (sint i)) (take (nat (sint (sz v))) b))))
           \<and> take (nat (sint j')) b'
              = take (nat (sint j)) b @ filter p (drop (nat (sint i)) (take (nat (sint (sz v))) b))"
  using assms
proof (induction p i j v arbitrary: b rule: retain_loop.induct)
  case (1 pred i j v)
  let ?n = "nat (sint (sz v))"
  let ?i = "nat (sint i)"
  let ?j = "nat (sint j)"
  show ?case
  proof (cases "i <s sz v")
    case False
    with "1.prems" have "sint i = sint (sz v)"
      by (simp add: word_sless_alt)
    then have e: "i = sz v"
      by (rule signed_word_eqI)
    have "retain_loop pred i j v = Some (sz v, j, v\<lparr>data := Some b\<rparr>)"
      using False e "1.prems"(1) by (subst retain_loop_unfold) simp
    then show ?thesis
      using e by auto
  next
    case True
    then have lt: "sint i < sint (sz v)"
      by (simp add: word_sless_alt)
    have i0: "0 \<le> sint i"
      using "1.prems" by linarith
    have si: "sint (i + 1) = sint i + 1"
      using lt by (rule sint_succ_Size)
    have sj: "sint (j + 1) = sint j + 1"
      using "1.prems"(3) lt by (intro sint_succ_Size [of j "sz v"]) linarith
    have ilen: "?i < length b" and jlen: "?j < length b" and ji: "?j \<le> ?i" and inn: "?i < ?n"
      using "1.prems" lt i0 by linarith+
    have ld: "load v i = Some (b ! ?i)"
      using "1.prems"(1) i0 ilen by (simp add: load_def)
    have "?i < length (take ?n b)"
      using inn "1.prems"(5) by simp
    then have "drop ?i (take ?n b) = take ?n b ! ?i # drop (Suc ?i) (take ?n b)"
      by (rule Cons_nth_drop_Suc [symmetric])
    then have dr: "drop ?i (take ?n b) = b ! ?i # drop (Suc ?i) (take ?n b)"
      using inn by (simp only: nth_take)
    have Si: "nat (sint i + 1) = Suc ?i" and Sj: "nat (sint j + 1) = Suc ?j"
      using i0 "1.prems"(2) by linarith+
    show ?thesis
    proof (cases "pred (b ! ?i)")
      case False
      have "\<exists>j' b'. retain_loop pred (i + 1) j v = Some (sz v, j', v\<lparr>data := Some b'\<rparr>)
           \<and> length b' = length b
           \<and> sint j' = sint j + int (length (filter pred (drop (nat (sint (i + 1))) (take ?n b))))
           \<and> take (nat (sint j')) b'
              = take ?j b @ filter pred (drop (nat (sint (i + 1))) (take ?n b))"
        using "1.prems" lt si
        by (intro "1.IH"(2) [OF True ld False]) simp_all
      moreover have "retain_loop pred i j v = retain_loop pred (i + 1) j v"
        using True ld False by (subst retain_loop_unfold) simp
      ultimately show ?thesis
        using False by (simp add: si Si dr)
    next
      case pt: True
      let ?b1 = "b[?j := b ! ?i]"
      let ?v1 = "v\<lparr>data := Some ?b1\<rparr>"
      have st: "store v j (b ! ?i) = Some ?v1"
        using "1.prems"(1,2) jlen by (simp add: store_def)
      have "\<exists>j' b'. retain_loop pred (i + 1) (j + 1) ?v1 = Some (sz ?v1, j', ?v1\<lparr>data := Some b'\<rparr>)
           \<and> length b' = length ?b1
           \<and> sint j' = sint (j + 1) + int (length (filter pred (drop (nat (sint (i + 1))) (take (nat (sint (sz ?v1))) ?b1))))
           \<and> take (nat (sint j')) b'
              = take (nat (sint (j + 1))) ?b1 @ filter pred (drop (nat (sint (i + 1))) (take (nat (sint (sz ?v1))) ?b1))"
        using "1.prems" lt si sj
        by (intro "1.IH"(1) [OF True ld pt st]) simp_all
      then obtain j' b' where
        r: "retain_loop pred (i + 1) (j + 1) ?v1 = Some (sz v, j', v\<lparr>data := Some b'\<rparr>)"
        and l: "length b' = length b"
        and c: "sint j' = sint j + 1 + int (length (filter pred (drop (Suc ?i) (take ?n ?b1))))"
        and t: "take (nat (sint j')) b' = take (Suc ?j) ?b1 @ filter pred (drop (Suc ?i) (take ?n ?b1))"
        by (auto simp: si sj Si Sj)
      have d1: "drop (Suc ?i) (take ?n ?b1) = drop (Suc ?i) (take ?n b)"
        using ji by (simp add: take_update_swap drop_update_cancel)
      have t1: "take (Suc ?j) ?b1 = take ?j b @ [b ! ?i]"
        using jlen by (simp add: take_Suc_conv_app_nth)
      have "retain_loop pred i j v = retain_loop pred (i + 1) (j + 1) ?v1"
        using True ld pt st by (subst retain_loop_unfold) simp
      with r have r': "retain_loop pred i j v = Some (sz v, j', v\<lparr>data := Some b'\<rparr>)"
        by simp
      have c': "sint j' = sint j + int (length (filter pred (drop ?i (take ?n b))))"
        using c pt by (simp add: d1 dr)
      have t': "take (nat (sint j')) b' = take ?j b @ filter pred (drop ?i (take ?n b))"
        using t pt by (simp add: d1 t1 dr)
      from r' l c' t' show ?thesis
        by blast
    qed
  qed
qed


lemma sint_zero_iff: "sint (x :: Size) = 0 \<longleftrightarrow> x = 0"
  using signed_word_eqI [of x 0] by auto

lemma sint_minus_in_range:
  assumes "0 \<le> sint (b::Size)" "sint b \<le> sint (a::Size)"
  shows "sint (a - b) = sint a - sint b"
proof -
  have "signed_take_bit 31 (sint a - sint b) = sint a - sint b"
    using assms sint_range [of a] by (intro sint_in_range) linarith+
  then show ?thesis
    by (simp add: sint_word_diff)
qed

text \<open>
  Claim C10. On a vec in a regular state, \<open>retain(pred)\<close> returns, and afterwards the live
  elements are exactly the former elements on which \<open>pred\<close> holds, in their former order;
  the size has gone down by the number of elements on which \<open>pred\<close> does not hold, and the
  capacity is unchanged.
\<close>

theorem retain_filters:
  assumes "well_formed v"
  shows "\<exists>v' tr. retain ndebug pred v = Returns (v', tr)
           \<and> contents v' = filter pred (contents v)
           \<and> sint (sz v') = sint (sz v) - int (length (filter (\<lambda>x. \<not> pred x) (contents v)))
           \<and> cap v' = cap v"
proof (cases "data v")
  case None
  with assms have "sint (sz v) = 0"
    by (auto simp: well_formed_def word_sle_eq)
  then have z: "sz v = 0"
    by (simp add: sint_zero_iff)
  have l: "retain_loop pred 0 0 v = Some (0, 0, v)"
    using z by (subst retain_loop_unfold) simp
  have "shrink_loop 0 0 (v, []) = (v, [])"
    by (subst shrink_loop_unfold) simp
  then have "retain ndebug pred v = Returns (v, [])"
    using z by (simp add: retain_def l shrink_def assert_fails_def)
  then show ?thesis
    using None by (simp add: contents_def)
next
  case (Some b)
  let ?n = "nat (sint (sz v))"
  from assms have s0: "0 \<le> sint (sz v)" and sc: "sint (sz v) \<le> sint (cap v)"
    by (auto simp: well_formed_def word_sle_eq)
  then have c0: "0 \<le> sint (cap v)"
    by linarith
  from assms Some have lb: "length b = nat (sint (cap v))"
    by (simp add: well_formed_def unat_nonneg [OF c0])
  have nb: "?n \<le> length b"
    using lb sc by linarith
  have "\<exists>j' b'. retain_loop pred 0 0 v = Some (sz v, j', v\<lparr>data := Some b'\<rparr>)
           \<and> length b' = length b
           \<and> sint j' = sint (0 :: Size) + int (length (filter pred (drop (nat (sint (0 :: Size))) (take ?n b))))
           \<and> take (nat (sint j')) b'
              = take (nat (sint (0 :: Size))) b @ filter pred (drop (nat (sint (0 :: Size))) (take ?n b))"
    using Some s0 nb by (intro retain_loop_inv) simp_all
  then obtain j' b' where
    r: "retain_loop pred 0 0 v = Some (sz v, j', v\<lparr>data := Some b'\<rparr>)"
    and c: "sint j' = int (length (filter pred (take ?n b)))"
    and t: "take (nat (sint j')) b' = filter pred (take ?n b)"
    by auto
  let ?v1 = "v\<lparr>data := Some b'\<rparr>"
  have j0: "0 \<le> sint j'"
    using c by simp
  have "length (filter pred (take ?n b)) \<le> ?n"
    using length_filter_le [of pred "take ?n b"] nb by simp
  then have jn: "sint j' \<le> sint (sz v)"
    using c s0 by linarith
  have d: "sint (sz v - j') = sint (sz v) - sint j'"
    using j0 jn by (rule sint_minus_in_range)
  have a: "sz v - j' \<le>s sz ?v1"
    using d j0 by (simp add: word_sle_eq)
  have "0 \<le> sint (sz v - j')"
    using d jn by simp
  then have "fst (shrink_loop (sz v - j') 0 (?v1, [])) = ?v1\<lparr>sz := sz ?v1 - (sz v - j' - 0)\<rparr>"
    by (intro shrink_loop_fst) simp
  then have f: "fst (shrink_loop (sz v - j') 0 (?v1, [])) = v\<lparr>data := Some b', sz := j'\<rparr>"
    by simp
  have "retain ndebug pred v = Returns (shrink_loop (sz v - j') 0 (?v1, []))"
    using a by (simp add: retain_def r shrink_def assert_fails_def)
  then have e: "retain ndebug pred v
      = Returns (v\<lparr>data := Some b', sz := j'\<rparr>, snd (shrink_loop (sz v - j') 0 (?v1, [])))"
    using f by (metis prod.collapse)
  have cv: "contents v = take ?n b"
    using Some by (simp add: contents_def)
  have len: "int (length (take ?n b)) = sint (sz v)"
    using nb s0 by simp
  have "length (filter pred (take ?n b)) + length (filter (\<lambda>x. \<not> pred x) (take ?n b)) = length (take ?n b)"
    by (rule sum_length_filter_compl)
  then have cnt: "sint j' = sint (sz v) - int (length (filter (\<lambda>x. \<not> pred x) (take ?n b)))"
    using c len by linarith
  show ?thesis
    using e t cnt cv by (simp add: contents_def)
qed

lemma well_formed_v1234: "well_formed v1234"
  by (simp add: well_formed_def v1234_def word_sle_eq)

theorem retain_filters_witness:
  "well_formed v1234
   \<and> (\<exists>v' tr. retain False even v1234 = Returns (v', tr)
           \<and> contents v' = [2, 4]
           \<and> sint (sz v') = 4 - 2
           \<and> cap v' = 4)"
  using retain_filters [OF well_formed_v1234, of False even] well_formed_v1234
  by (simp add: contents_def v1234_def)


subsection \<open>The capacity is even\<close>

lemma shrink_loop_cap: "cap (fst (shrink_loop n i s)) = cap (fst s)"
proof (induction n i s rule: shrink_loop.induct)
  case (1 nelems i v tr)
  then show ?case
    by (subst shrink_loop_unfold) simp
qed

lemma growTo_loop_cap: "growTo_loop n pad i v = Some v' \<Longrightarrow> cap v' = cap v"
proof (induction n pad i v rule: growTo_loop.induct)
  case (1 n pad i v)
  show ?case
  proof (cases "i <s n")
    case False
    then have "growTo_loop n pad i v = Some v"
      by (subst growTo_loop.simps) simp
    with "1.prems" show ?thesis by simp
  next
    case True
    then have "growTo_loop n pad i v
        = (case store v i pad of None \<Rightarrow> None | Some v1 \<Rightarrow> growTo_loop n pad (i + 1) v1)"
      by (subst growTo_loop.simps) simp
    with "1.prems" obtain v1 where st: "store v i pad = Some v1"
      and r: "growTo_loop n pad (i + 1) v1 = Some v'"
      by (auto split: option.splits)
    from "1.IH" [OF True st r] store_fields [OF st] show ?thesis
      by simp
  qed
qed

lemma copyTo_loop_cap: "copyTo_loop v i c = Some c' \<Longrightarrow> cap c' = cap c"
proof (induction v i c rule: copyTo_loop.induct)
  case (1 v i c)
  show ?case
  proof (cases "i <s sz v")
    case False
    then have "copyTo_loop v i c = Some c"
      by (subst copyTo_loop.simps) simp
    with "1.prems" show ?thesis by simp
  next
    case True
    then have "copyTo_loop v i c
        = (case load v i of
             None \<Rightarrow> None
           | Some x \<Rightarrow> (case store c i x of None \<Rightarrow> None | Some c1 \<Rightarrow> copyTo_loop v (i + 1) c1))"
      by (subst copyTo_loop.simps) simp
    with "1.prems" obtain x c1 where ld: "load v i = Some x" and st: "store c i x = Some c1"
      and r: "copyTo_loop v (i + 1) c1 = Some c'"
      by (auto split: option.splits)
    from "1.IH" [OF True ld st r] store_fields [OF st] show ?thesis
      by simp
  qed
qed

lemma retain_loop_cap: "retain_loop pred i j v = Some (i', j', v') \<Longrightarrow> cap v' = cap v"
proof (induction pred i j v rule: retain_loop.induct)
  case (1 pred i j v)
  show ?case
  proof (cases "i <s sz v")
    case False
    then have "retain_loop pred i j v = Some (i, j, v)"
      by (subst retain_loop_unfold) simp
    with "1.prems" show ?thesis by simp
  next
    case True
    then have e: "retain_loop pred i j v
        = (case load v i of
              None \<Rightarrow> None
            | Some val \<Rightarrow>
                if pred val
                then (case store v j val of
                        None \<Rightarrow> None
                      | Some v1 \<Rightarrow> retain_loop pred (i + 1) (j + 1) v1)
                else retain_loop pred (i + 1) j v)"
      by (subst retain_loop_unfold) simp
    with "1.prems" obtain val where ld: "load v i = Some val"
      by (auto split: option.splits)
    show ?thesis
    proof (cases "pred val")
      case False
      with e ld "1.prems" have "retain_loop pred (i + 1) j v = Some (i', j', v')"
        by simp
      from "1.IH"(2) [OF True ld False this] show ?thesis .
    next
      case pt: True
      with e ld "1.prems" obtain v1 where st: "store v j val = Some v1"
        and r: "retain_loop pred (i + 1) (j + 1) v1 = Some (i', j', v')"
        by (auto split: option.splits)
      from "1.IH"(1) [OF True ld pt st r] store_fields [OF st] show ?thesis
        by simp
    qed
  qed
qed

lemma capacity_cap_ok:
  assumes "cap_ok v" "capacity r errno v n = Returns v' \<or> capacity r errno v n = Throws v'"
  shows "cap_ok v'"
proof (cases "cap v <s n")
  case False
  then have "n \<le>s cap v"
    by (simp add: word_sless_alt word_sle_eq)
  with assms show ?thesis
    by (simp add: capacity_def)
next
  case True
  let ?a = "capacity_add (cap v) n"
  from assms(1) have c0: "0 \<le> sint (cap v)" and ev: "even (sint (cap v))"
    by (simp_all add: cap_ok_def)
  note g = capacity_grow [OF c0 True]
  show ?thesis
  proof (cases "INT_MAX - sint (cap v) < sint ?a")
    case True
    with assms show ?thesis by (simp add: g)
  next
    case False
    have a0: "0 \<le> sint ?a"
      using capacity_add_even_pos(2) [OF c0, of n] by simp
    have "sint (cap v + ?a) = sint (cap v) + sint ?a"
      using c0 a0 False by (rule sint_new_cap)
    then have "cap_ok (v\<lparr>data := d, cap := cap v + ?a\<rparr>)" for d
      using c0 a0 ev capacity_add_even_pos(1) [OF c0, of n] by (simp add: cap_ok_def)
    with assms(2) False show ?thesis
      by (auto simp: g split: if_splits)
  qed
qed

lemma push_cap_ok:
  assumes "cap_ok v" "push r errno v x = Returns v' \<or> push r errno v x = Throws v'"
  shows "cap_ok v'"
proof -
  define pre where "pre = (if sz v = cap v then capacity r errno v (sz v + 1) else Returns v)"
  have p: "push r errno v x =
     (case pre of
        Returns v1 \<Rightarrow>
          (case store v1 (sz v1) x of
             None \<Rightarrow> Undefined
           | Some v2 \<Rightarrow> Returns (v2\<lparr>sz := sz v2 + 1\<rparr>))
      | Throws v1 \<Rightarrow> Throws v1
      | Assertion_failed \<Rightarrow> Assertion_failed
      | Undefined \<Rightarrow> Undefined)"
    by (simp only: push_def pre_def)
  have ok: "cap_ok v1" if "pre = Returns v1 \<or> pre = Throws v1" for v1
  proof (cases "sz v = cap v")
    case True
    with that have "capacity r errno v (sz v + 1) = Returns v1 \<or> capacity r errno v (sz v + 1) = Throws v1"
      by (simp add: pre_def)
    with assms(1) show ?thesis by (rule capacity_cap_ok)
  next
    case False
    with that assms(1) show ?thesis by (simp add: pre_def)
  qed
  show ?thesis
  proof (cases pre)
    case (Returns v1)
    then have c1: "cap_ok v1" by (simp add: ok)
    show ?thesis
    proof (cases "store v1 (sz v1) x")
      case None
      with assms(2) Returns show ?thesis by (simp add: p)
    next
      case (Some v2)
      with assms(2) Returns have "v' = v2\<lparr>sz := sz v2 + 1\<rparr>" by (simp add: p)
      with store_fields [OF Some] c1 show ?thesis by (simp add: cap_ok_def)
    qed
  next
    case (Throws v1)
    then have "cap_ok v1" by (simp add: ok)
    with assms(2) Throws show ?thesis by (simp add: p)
  next
    case Assertion_failed
    with assms(2) show ?thesis by (simp add: p)
  next
    case Undefined
    with assms(2) show ?thesis by (simp add: p)
  qed
qed

lemma growTo_cap_ok:
  assumes "cap_ok v" "growTo r errno v n x = Returns v' \<or> growTo r errno v n x = Throws v'"
  shows "cap_ok v'"
proof (cases "n \<le>s sz v")
  case True
  with assms show ?thesis by (simp add: growTo_def)
next
  case False
  then have p: "growTo r errno v n x =
      (case capacity r errno v n of
             Returns v1 \<Rightarrow>
               (case growTo_loop n x (sz v1) v1 of
                  None \<Rightarrow> Undefined
                | Some v2 \<Rightarrow> Returns (v2\<lparr>sz := n\<rparr>))
           | Throws v1 \<Rightarrow> Throws v1
           | Assertion_failed \<Rightarrow> Assertion_failed
           | Undefined \<Rightarrow> Undefined)"
    by (simp add: growTo_def)
  show ?thesis
  proof (cases "capacity r errno v n")
    case (Returns v1)
    then have "capacity r errno v n = Returns v1 \<or> capacity r errno v n = Throws v1" by simp
    with assms(1) have c1: "cap_ok v1" by (rule capacity_cap_ok)
    show ?thesis
    proof (cases "growTo_loop n x (sz v1) v1")
      case None
      with assms(2) Returns show ?thesis by (simp add: p)
    next
      case (Some v2)
      with assms(2) Returns have "v' = v2\<lparr>sz := n\<rparr>" by (simp add: p)
      with growTo_loop_cap [OF Some] c1 show ?thesis by (simp add: cap_ok_def)
    qed
  next
    case (Throws v1)
    then have "capacity r errno v n = Returns v1 \<or> capacity r errno v n = Throws v1" by simp
    with assms(1) have "cap_ok v1" by (rule capacity_cap_ok)
    with assms(2) Throws show ?thesis by (simp add: p)
  next
    case Assertion_failed
    with assms(2) show ?thesis by (simp add: p)
  next
    case Undefined
    with assms(2) show ?thesis by (simp add: p)
  qed
qed

lemma clear_cap_ok: "cap_ok v \<Longrightarrow> clear v dealloc = (v', tr) \<Longrightarrow> cap_ok v'"
  by (auto simp: clear_def cap_ok_def Let_def split: if_splits)

lemma copyTo_cap_ok:
  assumes "cap_ok c" "copyTo r errno x v c = Returns c' \<or> copyTo r errno x v c = Throws c'"
  shows "cap_ok c'"
proof -
  let ?c0 = "fst (clear c False)"
  have c0: "cap_ok ?c0"
    using assms(1) by (rule clear_cap_ok [of c False ?c0 "snd (clear c False)"]) simp
  note p = copyTo_def [of r errno x v c]
  show ?thesis
  proof (cases "growTo r errno ?c0 (sz v) x")
    case (Returns c1)
    then have "growTo r errno ?c0 (sz v) x = Returns c1 \<or> growTo r errno ?c0 (sz v) x = Throws c1" by simp
    with c0 have c1: "cap_ok c1" by (rule growTo_cap_ok)
    show ?thesis
    proof (cases "copyTo_loop v 0 c1")
      case None
      with assms(2) Returns show ?thesis by (simp add: p)
    next
      case (Some c2)
      with assms(2) Returns have "c' = c2" by (simp add: p)
      with copyTo_loop_cap [OF Some] c1 show ?thesis by (simp add: cap_ok_def)
    qed
  next
    case (Throws c1)
    then have "growTo r errno ?c0 (sz v) x = Returns c1 \<or> growTo r errno ?c0 (sz v) x = Throws c1" by simp
    with c0 have "cap_ok c1" by (rule growTo_cap_ok)
    with assms(2) Throws show ?thesis by (simp add: p)
  next
    case Assertion_failed
    with assms(2) show ?thesis by (simp add: p)
  next
    case Undefined
    with assms(2) show ?thesis by (simp add: p)
  qed
qed

lemma retain_cap_ok:
  assumes "cap_ok v" "retain ndebug pred v = Returns (v', tr)"
  shows "cap_ok v'"
proof -
  from assms(2) obtain i j v1 where
    l: "retain_loop pred 0 0 v = Some (i, j, v1)" and s: "shrink ndebug v1 (i - j) = Returns (v', tr)"
    by (auto simp: retain_def split: option.splits)
  from s have "v' = fst (shrink_loop (i - j) 0 (v1, []))"
    by (auto simp: shrink_def split: if_splits)
  then have "cap v' = cap v1"
    by (simp add: shrink_loop_cap)
  with retain_loop_cap [OF l] assms(1) show ?thesis
    by (simp add: cap_ok_def)
qed

lemma reachable_cap_ok: "reachable v \<Longrightarrow> cap_ok v"
proof (induction rule: reachable.induct)
  case r_vec
  show ?case by (simp add: cap_ok_def vec0_def)
next
  case (r_store v i x v')
  from store_fields [OF r_store.hyps(2)] r_store.IH show ?case
    by (simp add: cap_ok_def)
next
  case (r_shrink v ndebug n v' tr)
  from r_shrink.hyps(2) have "v' = fst (shrink_loop n 0 (v, []))"
    by (auto simp: shrink_def split: if_splits)
  with r_shrink.IH show ?case by (simp add: cap_ok_def shrink_loop_cap)
next
  case (r_shrink' v ndebug n v')
  from r_shrink'.hyps(2) r_shrink'.IH show ?case
    by (auto simp: shrink'_def cap_ok_def split: if_splits)
next
  case (r_pop v ndebug v' tr)
  from r_pop.hyps(2) r_pop.IH show ?case
    by (auto simp: pop_def cap_ok_def split: if_splits)
next
  case (r_capacity v r errno n v')
  from r_capacity.IH show ?case
    by (rule capacity_cap_ok) (rule disjI1, rule r_capacity.hyps(2))
next
  case (r_capacity_throws v r errno n v')
  from r_capacity_throws.IH show ?case
    by (rule capacity_cap_ok) (rule disjI2, rule r_capacity_throws.hyps(2))
next
  case (r_push v r errno x v')
  from r_push.IH show ?case
    by (rule push_cap_ok) (rule disjI1, rule r_push.hyps(2))
next
  case (r_push_throws v r errno x v')
  from r_push_throws.IH show ?case
    by (rule push_cap_ok) (rule disjI2, rule r_push_throws.hyps(2))
next
  case (r_push' v ndebug x v')
  from r_push'.hyps(2) obtain v2 where st: "store v (sz v) x = Some v2" and e: "v' = v2\<lparr>sz := sz v2 + 1\<rparr>"
    by (auto simp: push'_def split: if_splits option.splits)
  from store_fields [OF st] e r_push'.IH show ?case
    by (simp add: cap_ok_def)
next
  case (r_growTo v r errno n x v')
  from r_growTo.IH show ?case
    by (rule growTo_cap_ok) (rule disjI1, rule r_growTo.hyps(2))
next
  case (r_growTo_throws v r errno n x v')
  from r_growTo_throws.IH show ?case
    by (rule growTo_cap_ok) (rule disjI2, rule r_growTo_throws.hyps(2))
next
  case (r_clear v dealloc v' tr)
  from r_clear.IH r_clear.hyps(2) show ?case
    by (rule clear_cap_ok)
next
  case (r_retain v ndebug pred v' tr)
  from r_retain.IH r_retain.hyps(2) show ?case
    by (rule retain_cap_ok)
next
  case (r_copyTo v c r errno x c')
  from r_copyTo.IH(2) show ?case
    by (rule copyTo_cap_ok) (rule disjI1, rule r_copyTo.hyps(3))
next
  case (r_copyTo_throws v c r errno x c')
  from r_copyTo_throws.IH(2) show ?case
    by (rule copyTo_cap_ok) (rule disjI2, rule r_copyTo_throws.hyps(3))
next
  case (r_moveTo_source v d v' d')
  from r_moveTo_source.hyps(3) show ?case
    by (auto simp: moveTo_def cap_ok_def Let_def)
next
  case (r_moveTo_dest v d v' d')
  from r_moveTo_dest.hyps(3) r_moveTo_dest.IH(1) show ?case
    by (auto simp: moveTo_def cap_ok_def Let_def)
qed


text \<open>
  Claim C9. In every state a vec can reach, the capacity is even (and not negative): it is
  \<open>0\<close> at construction, every increase that \<open>capacity\<close> computes is even, and no other
  operation changes it except to \<open>0\<close> or to the capacity of another vec. So the capacity is
  never the odd \<open>INT_MAX\<close>, and where \<open>push\<close> evaluates \<open>sz+1\<close>, that is when \<open>sz == cap\<close>,
  the sum does not overflow.
\<close>

theorem capacity_always_even:
  assumes "reachable v"
  shows "even (sint (cap v)) \<and> 0 \<le> sint (cap v)
         \<and> (\<forall>min_cap. even (sint (capacity_add (cap v) min_cap)))
         \<and> sint (cap v) \<noteq> INT_MAX
         \<and> (sz v = cap v \<longrightarrow> sint (sz v + 1) = sint (sz v) + 1)"
proof -
  from assms have ok: "0 \<le> sint (cap v)" "even (sint (cap v))"
    using reachable_cap_ok [of v] by (simp_all add: cap_ok_def)
  have odd: "odd INT_MAX"
    by (simp add: INT_MAX_def)
  with ok(2) have ne: "sint (cap v) \<noteq> INT_MAX"
    by auto
  have "sint (cap v) < sint size_max"
    using ne sint_range(2) [of "cap v"] by (simp add: size_max_def INT_MAX_def)
  then have "sint (cap v + 1) = sint (cap v) + 1"
    by (rule sint_succ_Size)
  with ok ne show ?thesis
    using capacity_add_even_pos(1) [OF ok(1)] by simp
qed

lemma reachable_pushed: "reachable \<lparr>data = Some [5 :: nat, 0], sz = 1, cap = 2\<rparr>"
proof -
  have "push (Realloc_block (\<lambda>_. 0)) 0 vec0 (5 :: nat) = Returns \<lparr>data = Some [5, 0], sz = 1, cap = 2\<rparr>"
    by (simp add: push_def capacity_def capacity_add_def vec_max_def vec0_def realloc_def size_max_def
        INT_MAX_def word_sle_eq word_sless_alt Let_def upt_conv_Cons store_def)
  with r_vec show ?thesis
    by (rule r_push)
qed

lemma reachable_pushed_twice: "reachable \<lparr>data = Some [5 :: nat, 6], sz = 2, cap = 2\<rparr>"
proof -
  have "push (Realloc_block (\<lambda>_. 0)) 0 \<lparr>data = Some [5 :: nat, 0], sz = 1, cap = 2\<rparr> 6
        = Returns \<lparr>data = Some [5, 6], sz = 2, cap = 2\<rparr>"
    by (simp add: push_def store_def)
  with reachable_pushed show ?thesis
    by (rule r_push)
qed

theorem capacity_always_even_witness:
  "reachable \<lparr>data = Some [5 :: nat, 6], sz = 2, cap = 2\<rparr>
   \<and> even (sint (2 :: Size)) \<and> sint (2 :: Size) \<noteq> INT_MAX
   \<and> sint ((2 :: Size) + 1) = sint (2 :: Size) + 1"
  using capacity_always_even [OF reachable_pushed_twice] reachable_pushed_twice
  by simp

section \<open>Properties of the assertion macro\<close>

text \<open>
  Claim C7. With \<open>NDEBUG\<close> defined, \<open>MINISAT_ASSERT(c, ...)\<close> does nothing: the condition
  is not evaluated, the state and \<open>stderr\<close> stay as they are, and the process goes on
  whatever the condition would have been. Without \<open>NDEBUG\<close>, the macro ends in
  \<open>AssertionFailure\<close>, which writes the text of the failed condition to \<open>stderr\<close> and
  aborts without returning, exactly when the condition evaluates to false; when it
  evaluates to true the process goes on.
\<close>

theorem MINISAT_ASSERT_aborts_iff:
  "MINISAT_ASSERT True c a f file line msg s err = Continues s err
   \<and> ((\<exists>out. MINISAT_ASSERT False c a f file line msg s err = Aborted out) \<longleftrightarrow> \<not> fst (c s))
   \<and> (fst (c s) \<longrightarrow> MINISAT_ASSERT False c a f file line msg s err = Continues (snd (c s)) err)
   \<and> (\<not> fst (c s) \<longrightarrow>
        MINISAT_ASSERT False c a f file line msg s err = AssertionFailure a f file line msg err
        \<and> (\<exists>rest. MINISAT_ASSERT False c a f file line msg s err
             = Aborted (err @ [CHR ''\<newline>''] @ ''~~~ Assertion failed: '' @ [CHR 0x22] @ a @ [CHR 0x22] @ rest)))"
  by (cases "c s") (simp add: MINISAT_ASSERT_def MINISAT_ASSERT_TEST_def AssertionFailure_def)

theorem MINISAT_ASSERT_aborts_iff_witness:
  "MINISAT_ASSERT True counted ''n is even'' ''f'' ''x.cc'' 12 None 1 [] = Continues 1 []
   \<and> \<not> fst (counted 1)
   \<and> MINISAT_ASSERT False counted ''n is even'' ''f'' ''x.cc'' 12 None 1 []
       = (AssertionFailure ''n is even'' ''f'' ''x.cc'' 12 None [] :: nat step)
   \<and> fst (counted 2)
   \<and> MINISAT_ASSERT False counted ''n is even'' ''f'' ''x.cc'' 12 None 2 [] = Continues 3 []"
  using MINISAT_ASSERT_aborts_iff [of counted "''n is even''" "''f''" "''x.cc''" 12 None 1 "[]"]
    MINISAT_ASSERT_aborts_iff [of counted "''n is even''" "''f''" "''x.cc''" 12 None 2 "[]"]
  by (simp add: counted_def)

section \<open>Properties of the options\<close>

lemma match_Some_iff: "match s p = Some r \<longleftrightarrow> s = p @ r"
  by (induction s p rule: match.induct) auto

lemma match_append [simp]: "match (p @ r) p = Some r"
  by (simp add: match_Some_iff)

lemma match_self [simp]: "match n n = Some []"
  using match_append [of n "[]"] by simp

lemma no_prefix_ext:
  assumes "match n ''no-'' = None"
  shows "match (n @ CHR ''='' # w) ''no-'' = None"
proof (cases n)
  case Nil
  then show ?thesis by simp
next
  case (Cons a n1)
  note c1 = Cons
  show ?thesis
  proof (cases n1)
    case Nil
    with c1 show ?thesis by simp
  next
    case (Cons b n2)
    note c2 = Cons
    show ?thesis
    proof (cases n2)
      case Nil
      with c1 c2 show ?thesis by simp
    next
      case (Cons c n3)
      with c1 c2 assms show ?thesis by (simp split: if_splits)
    qed
  qed
qed

subsection \<open>Values\<close>

text \<open>
  Claim C8. \<open>IntOption::parseValue(str)\<close> is to accept \<open>str\<close>, storing \<open>v\<close>, exactly when
  \<open>str\<close> as a whole is a decimal integer \<open>v\<close> within the range. The test for a malformed
  value is \<open>end == nullptr || *end != '\0'\<close>; for the empty string \<open>strtol\<close> converts
  nothing, returns \<open>0\<close> and leaves \<open>end\<close> at the terminating \<open>'\0'\<close>, so the empty string
  passes the test and is accepted as \<open>0\<close> whenever \<open>0\<close> is in the range. And the \<open>long\<close>
  that \<open>strtol\<close> returns is cut to \<open>int32_t\<close> before the range is looked at: where \<open>long\<close>
  has 64 bits, \<open>4294967297\<close> is accepted as \<open>1\<close>.
\<close>

theorem IntOption_parseValue_accepts_empty:
  "strtol [] = (0, [])
   \<and> IntOption_parseValue ''verb'' \<lparr>range_begin = 0, range_end = 2\<rparr> 1 [] None True
       = (True, IntOption ''verb'' \<lparr>range_begin = 0, range_end = 2\<rparr> 0, [])
   \<and> strtol ''4294967297'' = (4294967297, [])
   \<and> IntOption_parseValue ''verb'' \<lparr>range_begin = 0, range_end = 2\<rparr> 0 ''4294967297'' None True
       = (True, IntOption ''verb'' \<lparr>range_begin = 0, range_end = 2\<rparr> 1, [])"
  by (simp add: IntOption_parseValue_def strtol_def strtol_clamped_def isdigit_def isspace_def
      word_sless_alt Let_def)

lemma parseValue_False_unchanged:
  "parseValue sd opt str env_name strict = (False, opt', err) \<Longrightarrow> opt' = opt"
  by (cases opt)
     (auto simp: DoubleOption_parseValue_def IntOption_parseValue_def Int64Option_parseValue_def
        BoolOption_parseValue_def Let_def split: prod.splits if_splits)

subsection \<open>Boolean options on the command line\<close>

text \<open>
  Claim C6 as stated fails for a name that begins with \<open>no-\<close>: for the option \<open>no-x\<close> the
  argument \<open>-no-x\<close> has the form \<open>-N\<close>, but \<open>BoolOption::parse\<close> takes the branch for
  \<open>-no-<NAME>\<close>, compares \<open>x\<close> with the name and returns false, the value unchanged.
\<close>

theorem BoolOption_parse_rejects_no_name:
  "BoolOption_parse ''no-x'' True ''-no-x'' = Returned (False, BoolOption ''no-x'' True) []"
  by (simp add: BoolOption_parse_def)

text \<open>
  Claim C6, as the code has it. For a boolean option whose name \<open>N\<close> does not begin with
  \<open>no-\<close>, \<open>BoolOption::parse\<close> returns true on \<open>-N\<close> (the value becomes true), on \<open>-no-N\<close>
  (false), and on \<open>-N=v\<close> where \<open>v\<close> in lower case is one of \<open>true\<close>, \<open>yes\<close>, \<open>on\<close>, \<open>1\<close>
  (true) or \<open>false\<close>, \<open>no\<close>, \<open>off\<close>, \<open>0\<close> (false); on \<open>-N=v\<close> with any other \<open>v\<close> it ends the
  process with \<open>exit(1)\<close>; and on every string of none of the three forms it returns false
  and leaves the value unchanged.
\<close>

theorem BoolOption_parse_forms:
  assumes "match n ''no-'' = None"
  shows "(str = ''-'' @ n \<longrightarrow> BoolOption_parse n v str = Returned (True, BoolOption n True) [])
     \<and> (str = ''-no-'' @ n \<longrightarrow> BoolOption_parse n v str = Returned (True, BoolOption n False) [])
     \<and> (\<forall>w. str = ''-'' @ n @ ''='' @ w \<and> map tolower w \<in> set true_values
            \<longrightarrow> BoolOption_parse n v str = Returned (True, BoolOption n True) [])
     \<and> (\<forall>w. str = ''-'' @ n @ ''='' @ w \<and> map tolower w \<in> set false_values
            \<longrightarrow> BoolOption_parse n v str = Returned (True, BoolOption n False) [])
     \<and> (\<forall>w. str = ''-'' @ n @ ''='' @ w \<and> map tolower w \<notin> set true_values
              \<and> map tolower w \<notin> set false_values
            \<longrightarrow> (\<exists>err. BoolOption_parse n v str = Exited 1 err))
     \<and> (str \<noteq> ''-'' @ n \<and> str \<noteq> ''-no-'' @ n \<and> (\<forall>w. str \<noteq> ''-'' @ n @ ''='' @ w)
            \<longrightarrow> BoolOption_parse n v str = Returned (False, BoolOption n v) [])"
proof (intro conjI allI impI)
  assume "str = ''-'' @ n"
  then show "BoolOption_parse n v str = Returned (True, BoolOption n True) []"
    using assms by (simp add: BoolOption_parse_def Let_def)
next
  assume "str = ''-no-'' @ n"
  then show "BoolOption_parse n v str = Returned (True, BoolOption n False) []"
    by (simp add: BoolOption_parse_def Let_def)
next
  fix w
  assume a: "str = ''-'' @ n @ ''='' @ w \<and> map tolower w \<in> set true_values"
  have m: "match (n @ CHR ''='' # w) n = Some (CHR ''='' # w)"
    by (rule match_append)
  from a show "BoolOption_parse n v str = Returned (True, BoolOption n True) []"
    using no_prefix_ext [OF assms, of w] m
    by (simp add: BoolOption_parse_def BoolOption_parseValue_def Let_def)
next
  fix w
  assume a: "str = ''-'' @ n @ ''='' @ w \<and> map tolower w \<in> set false_values"
  have m: "match (n @ CHR ''='' # w) n = Some (CHR ''='' # w)"
    by (rule match_append)
  from a show "BoolOption_parse n v str = Returned (True, BoolOption n False) []"
    using no_prefix_ext [OF assms, of w] m
    by (auto simp: BoolOption_parse_def BoolOption_parseValue_def Let_def true_values_def
        false_values_def)
next
  fix w
  assume a: "str = ''-'' @ n @ ''='' @ w \<and> map tolower w \<notin> set true_values
              \<and> map tolower w \<notin> set false_values"
  have m: "match (n @ CHR ''='' # w) n = Some (CHR ''='' # w)"
    by (rule match_append)
  from a show "\<exists>err. BoolOption_parse n v str = Exited 1 err"
    using no_prefix_ext [OF assms, of w] m
    by (simp add: BoolOption_parse_def BoolOption_parseValue_def Let_def)
next
  assume a: "str \<noteq> ''-'' @ n \<and> str \<noteq> ''-no-'' @ n \<and> (\<forall>w. str \<noteq> ''-'' @ n @ ''='' @ w)"
  show "BoolOption_parse n v str = Returned (False, BoolOption n v) []"
  proof (cases "match str ''-''")
    case None
    then show ?thesis by (simp add: BoolOption_parse_def)
  next
    case (Some s1)
    then have s: "str = ''-'' @ s1" by (simp only: match_Some_iff)
    show ?thesis
    proof (cases "match s1 ''no-''")
      case (Some s2)
      then have "s1 = ''no-'' @ s2" by (simp only: match_Some_iff)
      with s a have "s2 \<noteq> n" by auto
      with Some \<open>match str ''-'' = Some s1\<close> show ?thesis
        by (simp add: BoolOption_parse_def)
    next
      case None
      note no = None
      show ?thesis
      proof (cases "match s1 n")
        case None
        with no \<open>match str ''-'' = Some s1\<close> show ?thesis
          by (simp add: BoolOption_parse_def)
      next
        case (Some s2)
        then have s1: "s1 = n @ s2" by (simp only: match_Some_iff)
        have ne: "s2 \<noteq> []"
          using s s1 a by auto
        have "match s2 ''='' = None"
        proof (rule ccontr)
          assume "match s2 ''='' \<noteq> None"
          then obtain w where "match s2 ''='' = Some w" by auto
          then have "s2 = ''='' @ w" by (simp only: match_Some_iff)
          with s s1 a show False by auto
        qed
        with Some no ne \<open>match str ''-'' = Some s1\<close> show ?thesis
          by (simp add: BoolOption_parse_def)
      qed
    qed
  qed
qed

theorem BoolOption_parse_forms_witness:
  "match ''pre'' ''no-'' = None
   \<and> BoolOption_parse ''pre'' False ''-pre'' = Returned (True, BoolOption ''pre'' True) []
   \<and> BoolOption_parse ''pre'' True ''-no-pre'' = Returned (True, BoolOption ''pre'' False) []
   \<and> map tolower ''YES'' \<in> set true_values
   \<and> BoolOption_parse ''pre'' False ''-pre=YES'' = Returned (True, BoolOption ''pre'' True) []
   \<and> map tolower ''Off'' \<in> set false_values
   \<and> BoolOption_parse ''pre'' True ''-pre=Off'' = Returned (True, BoolOption ''pre'' False) []
   \<and> BoolOption_parse ''pre'' True ''-pre=maybe''
       = Exited 1 (snd (snd (BoolOption_parseValue ''pre'' True ''maybe'' None True)))
   \<and> BoolOption_parse ''pre'' True ''-prefix'' = Returned (False, BoolOption ''pre'' True) []"
proof -
  have h: "match ''pre'' ''no-'' = None"
    by simp
  have t: "map tolower ''YES'' \<in> set true_values" "map tolower ''Off'' \<in> set false_values"
    by code_simp+
  have e: "BoolOption_parse ''pre'' True ''-pre=maybe''
       = Exited 1 (snd (snd (BoolOption_parseValue ''pre'' True ''maybe'' None True)))"
    by code_simp
  show ?thesis
    using BoolOption_parse_forms [OF h, of "''-pre''" False]
      BoolOption_parse_forms [OF h, of "''-no-pre''" True]
      BoolOption_parse_forms [OF h, of "''-pre=YES''" False]
      BoolOption_parse_forms [OF h, of "''-pre=Off''" True]
      BoolOption_parse_forms [OF h, of "''-prefix''" True] h t e
    by simp
qed

subsection \<open>Options from the environment\<close>

text \<open>
  \<open>parseEnv\<close> in terms of \<open>parseValue\<close>. For an option named \<open>n\<close> it looks up the variable
  whose name is \<open>MINISAT_\<close> followed by \<open>n\<close> with each \<open>-\<close> replaced by \<open>_\<close> and every other
  character passed through \<open>toupper\<close>, and no other variable: two environments that agree
  on that name give the same result. If the variable is set and \<open>parseValue\<close> accepts its
  value, \<open>parseEnv\<close> returns true and the option is as \<open>parseValue\<close> set it; if the variable
  is not set, or \<open>parseValue\<close> rejects its value, \<open>parseEnv\<close> returns false and the option
  is unchanged.
\<close>

lemma parseEnv_reads_MINISAT_variable:
  "env_name_of (name opt)
     = ''MINISAT_'' @ map (\<lambda>c. if c = CHR ''-'' then CHR ''_'' else toupper c) (name opt)
   \<and> (getenv (env_name_of (name opt)) = getenv' (env_name_of (name opt))
        \<longrightarrow> parseEnv sd getenv opt = parseEnv sd getenv' opt)
   \<and> (getenv (env_name_of (name opt)) = None
        \<longrightarrow> fst (parseEnv sd getenv opt) = False \<and> fst (snd (parseEnv sd getenv opt)) = opt)
   \<and> (\<forall>s. getenv (env_name_of (name opt)) = Some s
             \<and> fst (parseValue sd opt s (Some (env_name_of (name opt))) False)
        \<longrightarrow> fst (parseEnv sd getenv opt) = True
            \<and> fst (snd (parseEnv sd getenv opt))
                = fst (snd (parseValue sd opt s (Some (env_name_of (name opt))) False)))
   \<and> (\<forall>s. getenv (env_name_of (name opt)) = Some s
             \<and> \<not> fst (parseValue sd opt s (Some (env_name_of (name opt))) False)
        \<longrightarrow> fst (parseEnv sd getenv opt) = False \<and> fst (snd (parseEnv sd getenv opt)) = opt)"
proof (intro conjI allI impI)
  show "env_name_of (name opt)
     = ''MINISAT_'' @ map (\<lambda>c. if c = CHR ''-'' then CHR ''_'' else toupper c) (name opt)"
    by (simp add: env_name_of_def)
next
  assume "getenv (env_name_of (name opt)) = getenv' (env_name_of (name opt))"
  then show "parseEnv sd getenv opt = parseEnv sd getenv' opt"
    by (simp add: parseEnv_def)
next
  assume "getenv (env_name_of (name opt)) = None"
  then show "fst (parseEnv sd getenv opt) = False" "fst (snd (parseEnv sd getenv opt)) = opt"
    by (simp_all add: parseEnv_def)
next
  fix s
  assume a: "getenv (env_name_of (name opt)) = Some s
             \<and> fst (parseValue sd opt s (Some (env_name_of (name opt))) False)"
  then show "fst (parseEnv sd getenv opt) = True"
    "fst (snd (parseEnv sd getenv opt))
       = fst (snd (parseValue sd opt s (Some (env_name_of (name opt))) False))"
    by (cases "parseValue sd opt s (Some (env_name_of (name opt))) False";
        simp add: parseEnv_def Let_def)+
next
  fix s
  assume a: "getenv (env_name_of (name opt)) = Some s
             \<and> \<not> fst (parseValue sd opt s (Some (env_name_of (name opt))) False)"
  obtain ok opt' err where p: "parseValue sd opt s (Some (env_name_of (name opt))) False = (ok, opt', err)"
    by (cases "parseValue sd opt s (Some (env_name_of (name opt))) False") auto
  with a have "\<not> ok" by simp
  with p have "opt' = opt"
    using parseValue_False_unchanged [of sd opt s "Some (env_name_of (name opt))" False opt' err]
    by simp
  with a p \<open>\<not> ok\<close> show "fst (parseEnv sd getenv opt) = False" "fst (snd (parseEnv sd getenv opt)) = opt"
    by (simp_all add: parseEnv_def Let_def)
qed

text \<open>
  Claim C4. \<open>parseEnv\<close> is to store the parsed value and return true when the variable
  \<open>MINISAT_<NAME>\<close> is set and its value parses for the type of the option, and otherwise
  to leave the value unchanged and return false. It looks up the right variable, \<open>MINISAT_VERB\<close>
  for the option \<open>verb\<close>. But with that variable set to the empty string, which is not an
  integer, \<open>parseEnv\<close> for the \<open>IntOption\<close> \<open>verb\<close> with range \<open>[0, 2]\<close> and value \<open>1\<close> returns
  true, silently, and the value has become \<open>0\<close>: \<open>IntOption::parseValue\<close> accepts the empty
  string.
\<close>

theorem parseEnv_accepts_empty_value:
  "opt_verb = IntOption ''verb'' \<lparr>range_begin = 0, range_end = 2\<rparr> 1
   \<and> env_name_of (name opt_verb) = ''MINISAT_VERB''
   \<and> env_verb [] (env_name_of (name opt_verb)) = Some []
   \<and> parseEnv (strtod plain_front_end) (env_verb []) opt_verb
       = (True, IntOption ''verb'' \<lparr>range_begin = 0, range_end = 2\<rparr> 0, [])"
proof -
  have n: "env_name_of (name opt_verb) = ''MINISAT_VERB''"
    unfolding opt_verb_def name.simps by code_simp
  have v: "parseValue (strtod plain_front_end) opt_verb [] (Some ''MINISAT_VERB'') False
            = (True, IntOption ''verb'' \<lparr>range_begin = 0, range_end = 2\<rparr> 0, [])"
    by (simp add: opt_verb_def IntOption_parseValue_def strtol_def strtol_clamped_def isdigit_def
        isspace_def word_sless_alt Let_def)
  have p: "parseEnv (strtod plain_front_end) (env_verb []) opt_verb
       = (True, IntOption ''verb'' \<lparr>range_begin = 0, range_end = 2\<rparr> 0, [])"
    by (simp add: parseEnv_def n env_verb_def v Let_def)
  show ?thesis
    using n p by (simp add: env_verb_def opt_verb_def [symmetric])
qed

subsection \<open>The command line\<close>



















end
